theory Spec2Isabelle
  imports Complex_Main "HOL-Library.Log_Nat"
begin

section \<open>The game variables of game.js\<close>

text \<open>
  The model covers the simulation core of \<^verbatim>\<open>game.js\<close>: \<^verbatim>\<open>resetGame\<close>,
  \<^verbatim>\<open>spawnPipe\<close>, \<^verbatim>\<open>update\<close> and \<^verbatim>\<open>flap\<close>. The module-level variables become one
  record that every function takes and returns. Drawing, asset loading and
  \<^verbatim>\<open>playAudio\<close> write to none of these variables and are left out.

  Numbers. JavaScript has one number type, the IEEE double. The counters and the
  horizontal coordinates only ever hold integers and are typed \<open>int\<close>. The bird's
  height and vertical velocity start at 256 and 0, and change by adding 0.25 or being
  set to -4.5 or to an integer: they are multiples of 1/4, which double arithmetic adds
  without rounding as long as they stay below \<open>2^51\<close>, and are typed \<open>rat\<close>. The
  result of \<^verbatim>\<open>Math.random()\<close> is a parameter \<open>r\<close> of \<^verbatim>\<open>spawnPipe\<close> and of
  \<^verbatim>\<open>update\<close>. The product \<^verbatim>\<open>Math.random() * 220\<close> is rounded to the nearest double,
  as JavaScript does, before \<^verbatim>\<open>Math.floor\<close> sees it. The quotient \<^verbatim>\<open>bird.vy/10\<close>, which
  only the drawing reads, is taken exactly.
\<close>

definition WIDTH :: int where "WIDTH = 288"
definition HEIGHT :: int where "HEIGHT = 512"
definition GROUND_HEIGHT :: int where "GROUND_HEIGHT = 112"
definition GRAVITY :: rat where "GRAVITY = 1 / 4"
definition JUMP :: rat where "JUMP = - (9 / 2)"
definition PIPE_GAP :: int where "PIPE_GAP = 100"
definition PIPE_DISTANCE :: int where "PIPE_DISTANCE = 140"
definition PIPE_WIDTH :: int where "PIPE_WIDTH = 52"
definition BASE_Y :: int where "BASE_Y = HEIGHT - GROUND_HEIGHT"

text \<open>\<^verbatim>\<open>Math.PI/4\<close>: the double nearest to pi is \<open>884279719003555 / 2^48\<close>, and dividing
  by 4 is exact.\<close>

definition MATH_PI_4 :: rat where "MATH_PI_4 = 884279719003555 / 2 ^ 50"

datatype STATE = Splash | Game | Over

text \<open>The object literal of \<^verbatim>\<open>resetGame\<close>: \<^verbatim>\<open>{x, y, vy, frame, rot, radius}\<close>. The
  bird and the pipes both have an \<^verbatim>\<open>x\<close>, and the bird has a \<^verbatim>\<open>frame\<close> beside the global
  one, so the fields carry the prefixes \<open>b_\<close> and \<open>p_\<close>.\<close>

record Bird =
  b_x :: int
  b_y :: rat
  b_vy :: rat
  b_frame :: int
  b_rot :: rat
  b_radius :: int

text \<open>The object literal of \<^verbatim>\<open>spawnPipe\<close>: \<^verbatim>\<open>{x, top, bottom}\<close>. The property
  \<^verbatim>\<open>passed\<close> is absent (undefined, hence falsy) until \<^verbatim>\<open>update\<close> sets it to true.\<close>

record Pipe =
  p_x :: int
  p_top :: int
  p_bottom :: int
  p_passed :: bool

record globals =
  gameState :: STATE
  score :: int
  pipes :: "Pipe list"
  bird :: Bird
  baseX :: int
  frame :: int
  pipeSpawnTimer :: int

section \<open>resetGame and spawnPipe\<close>

definition resetGame :: "globals \<Rightarrow> globals" where
  "resetGame s =
     s\<lparr>score := 0,
       pipes := [],
       bird := \<lparr>b_x = 60, b_y = of_int HEIGHT / 2, b_vy = 0, b_frame = 0, b_rot = 0,
                 b_radius = 12\<rparr>,
       baseX := 0,
       frame := 0,
       pipeSpawnTimer := 0\<rparr>"

subsection \<open>Rounding to a double\<close>

text \<open>The integer nearest to \<open>q\<close>, and the even one of the two when \<open>q\<close> is halfway.\<close>

definition round_even :: "rat \<Rightarrow> int" where
  "round_even q =
     (let n = \<lfloor>q\<rfloor>
      in if q - of_int n < 1 / 2 then n
         else if q - of_int n > 1 / 2 then n + 1
         else if even n then n else n + 1)"

text \<open>The binary exponent of a positive number: the \<open>e\<close> with \<open>2^e \<le> x < 2^(e+1)\<close>.
  \<open>bitlen m\<close> is the number of binary digits of \<open>m\<close>.\<close>

definition expo :: "rat \<Rightarrow> int" where
  "expo x = (if 1 \<le> x then bitlen \<lfloor>x\<rfloor> - 1 else - bitlen (\<lceil>1 / x\<rceil> - 1))"

text \<open>The result of an arithmetic operation whose exact value is \<open>x\<close>: the nearest
  double, ties to the even significand (the rounding of IEEE 754 that JavaScript uses).
  A double has a significand of 53 binary digits, so the doubles around \<open>x\<close> are the
  multiples of \<open>2^(e - 52)\<close>, \<open>e\<close> the exponent of \<open>x\<close> and at least \<open>-1022\<close>. Overflow
  to infinity, from \<open>2^1024\<close> on, is not modelled: the only rounded value here is below
  220.\<close>

definition fl :: "rat \<Rightarrow> rat" where
  "fl x =
     (if x = 0 then 0
      else (let u = 2 powi (max (expo \<bar>x\<bar>) (- 1022) - 52)
            in of_int (round_even (x / u)) * u))"

text \<open>The finite doubles are the numbers that rounding leaves as they are.\<close>

definition double :: "rat \<Rightarrow> bool" where
  "double x \<longleftrightarrow> fl x = x \<and> \<bar>x\<bar> < 2 ^ 1024"

subsection \<open>spawnPipe\<close>

text \<open>The object that \<^verbatim>\<open>spawnPipe\<close> pushes, for the value \<open>r\<close> of \<^verbatim>\<open>Math.random()\<close>. The
  factor \<open>HEIGHT - GROUND_HEIGHT - PIPE_GAP - 80\<close> is the integer 220, the product is
  rounded, and the floor and the sum with 40 are exact.\<close>

definition new_pipe :: "rat \<Rightarrow> Pipe" where
  "new_pipe r =
     (let topY = \<lfloor>fl (r * of_int (HEIGHT - GROUND_HEIGHT - PIPE_GAP - 80))\<rfloor> + 40
      in \<lparr>p_x = WIDTH, p_top = topY, p_bottom = topY + PIPE_GAP, p_passed = False\<rparr>)"

definition spawnPipe :: "rat \<Rightarrow> globals \<Rightarrow> globals" where
  "spawnPipe r s = s\<lparr>pipes := pipes s @ [new_pipe r]\<rparr>"

section \<open>update\<close>

text \<open>Lines 208 to 215: gravity, position, animation frame and rotation.\<close>

definition physics :: "Bird \<Rightarrow> Bird" where
  "physics b =
     (let b = b\<lparr>b_vy := b_vy b + GRAVITY\<rparr>;
          b = b\<lparr>b_y := b_y b + b_vy b\<rparr>;
          b = (if b_vy b \<ge> JUMP then b\<lparr>b_frame := 1\<rparr>
               else if b_vy b < 0 then b\<lparr>b_frame := 0\<rparr>
               else b\<lparr>b_frame := 2\<rparr>)
      in b\<lparr>b_rot := min MATH_PI_4 (b_vy b / 10)\<rparr>)"

text \<open>Lines 218 to 225: the spawn timer, the move to the left, and the removal of the
  first pipe. \<^verbatim>\<open>pipes.shift()\<close> removes the element at index 0.\<close>

definition move_pipe :: "Pipe \<Rightarrow> Pipe" where
  "move_pipe p = p\<lparr>p_x := p_x p - 2\<rparr>"

definition pipes_logic :: "rat \<Rightarrow> globals \<Rightarrow> globals" where
  "pipes_logic r s =
     (let s = s\<lparr>pipeSpawnTimer := pipeSpawnTimer s + 1\<rparr>;
          s = (if pipeSpawnTimer s > PIPE_DISTANCE
               then (spawnPipe r s)\<lparr>pipeSpawnTimer := 0\<rparr> else s);
          s = s\<lparr>pipes := map move_pipe (pipes s)\<rparr>
      in case pipes s of
           [] \<Rightarrow> s
         | p # ps \<Rightarrow> if p_x p < - PIPE_WIDTH then s\<lparr>pipes := ps\<rparr> else s)"

text \<open>Lines 229 to 243: the body of the second \<^verbatim>\<open>forEach\<close>, for one pipe. It reads the
  bird, writes \<^verbatim>\<open>gameState\<close> and \<^verbatim>\<open>score\<close>, and sets the pipe's \<^verbatim>\<open>passed\<close>.\<close>

definition pipe_body :: "Pipe \<Rightarrow> globals \<Rightarrow> Pipe \<times> globals" where
  "pipe_body p s =
     (let b = bird s;
          s = (if b_x b + b_radius b > p_x p \<and> b_x b - b_radius b < p_x p + PIPE_WIDTH
               then (if b_y b - of_int (b_radius b) < of_int (p_top p)
                        \<or> b_y b + of_int (b_radius b) > of_int (p_bottom p)
                     then s\<lparr>gameState := Over\<rparr> else s)
               else s)
      in if \<not> p_passed p \<and> b_x b > p_x p + PIPE_WIDTH
         then (p\<lparr>p_passed := True\<rparr>, s\<lparr>score := score s + 1\<rparr>)
         else (p, s))"

text \<open>The \<^verbatim>\<open>forEach\<close> itself: every pipe in order, with no early exit.\<close>

fun forEach_pipes :: "Pipe list \<Rightarrow> globals \<Rightarrow> Pipe list \<times> globals" where
  "forEach_pipes [] s = ([], s)"
| "forEach_pipes (p # ps) s =
     (let (p', s') = pipe_body p s;
          (ps', s'') = forEach_pipes ps s'
      in (p' # ps', s''))"

definition collisions :: "globals \<Rightarrow> globals" where
  "collisions s = (let (ps, s') = forEach_pipes (pipes s) s in s'\<lparr>pipes := ps\<rparr>)"

text \<open>Lines 246 to 251: the ground.\<close>

definition ground :: "globals \<Rightarrow> globals" where
  "ground s =
     (let b = bird s
      in if b_y b + of_int (b_radius b) > of_int BASE_Y
         then s\<lparr>bird := b\<lparr>b_y := of_int (BASE_Y - b_radius b)\<rparr>, gameState := Over\<rparr>
         else s)"

text \<open>The remainder operator \<^verbatim>\<open>%\<close> of JavaScript truncates: the result has the sign
  of the dividend.\<close>

definition js_rem :: "int \<Rightarrow> int \<Rightarrow> int" where
  "js_rem a b = sgn a * (\<bar>a\<bar> mod \<bar>b\<bar>)"

definition update :: "rat \<Rightarrow> globals \<Rightarrow> globals" where
  "update r s =
     (let s = s\<lparr>frame := frame s + 1\<rparr>;
          s = (if gameState s = Game
               then ground (collisions (pipes_logic r (s\<lparr>bird := physics (bird s)\<rparr>)))
               else s)
      in s\<lparr>baseX := js_rem (baseX s - 2) WIDTH\<rparr>)"

section \<open>flap\<close>

definition flap :: "globals \<Rightarrow> globals" where
  "flap s =
     (case gameState s of
        Splash \<Rightarrow> (let s = (resetGame s)\<lparr>gameState := Game\<rparr>
                   in s\<lparr>bird := (bird s)\<lparr>b_vy := JUMP\<rparr>\<rparr>)
      | Game \<Rightarrow> s\<lparr>bird := (bird s)\<lparr>b_vy := JUMP\<rparr>\<rparr>
      | Over \<Rightarrow> (resetGame s)\<lparr>gameState := Splash\<rparr>)"

section \<open>Runs\<close>

text \<open>The two inputs of the game: a frame of the animation loop, which carries the value
  that \<^verbatim>\<open>Math.random()\<close> returns if the frame spawns a pipe, and a key press or click.\<close>

datatype event = Tick rat | Activate

fun handle :: "event \<Rightarrow> globals \<Rightarrow> globals" where
  "handle (Tick r) s = update r s"
| "handle Activate s = flap s"

fun run :: "event list \<Rightarrow> globals \<Rightarrow> globals" where
  "run [] s = s"
| "run (e # es) s = run es (handle e s)"

text \<open>The state when \<^verbatim>\<open>loadAssets\<close> calls back: \<^verbatim>\<open>gameState\<close>, \<^verbatim>\<open>score\<close> and \<^verbatim>\<open>pipes\<close>
  have their initialisers, and \<^verbatim>\<open>resetGame()\<close> has assigned the other variables.\<close>

definition initial :: globals where
  "initial =
     \<lparr>gameState = Splash, score = 0, pipes = [],
      bird = \<lparr>b_x = 60, b_y = of_int HEIGHT / 2, b_vy = 0, b_frame = 0, b_rot = 0,
               b_radius = 12\<rparr>,
      baseX = 0, frame = 0, pipeSpawnTimer = 0\<rparr>"

text \<open>The states that the game can be in between two events. \<^verbatim>\<open>Math.random()\<close> returns
  a number that is at least 0 and less than 1. Every such number is admitted here, double
  or not; only the bounds of a new pipe's gap depend on it being a double.\<close>

inductive reachable :: "globals \<Rightarrow> bool" where
  reachable_initial: "reachable initial"
| reachable_update: "reachable s \<Longrightarrow> 0 \<le> r \<Longrightarrow> r < 1 \<Longrightarrow> reachable (update r s)"
| reachable_flap: "reachable s \<Longrightarrow> reachable (flap s)"

section \<open>Notions used in the properties\<close>

text \<open>The test of lines 230 and 232, under which a pipe ends the game, and the test of
  line 239, under which a pipe is counted.\<close>

definition hits :: "Bird \<Rightarrow> Pipe \<Rightarrow> bool" where
  "hits b p \<longleftrightarrow>
     b_x b + b_radius b > p_x p \<and> b_x b - b_radius b < p_x p + PIPE_WIDTH
     \<and> (b_y b - of_int (b_radius b) < of_int (p_top p)
        \<or> b_y b + of_int (b_radius b) > of_int (p_bottom p))"

definition passing :: "Bird \<Rightarrow> Pipe \<Rightarrow> bool" where
  "passing b p \<longleftrightarrow> \<not> p_passed p \<and> b_x b > p_x p + PIPE_WIDTH"

definition mark :: "Bird \<Rightarrow> Pipe \<Rightarrow> Pipe" where
  "mark b p = (if passing b p then p\<lparr>p_passed := True\<rparr> else p)"

text \<open>Line 225 on the list of pipes alone.\<close>

definition retire :: "Pipe list \<Rightarrow> Pipe list" where
  "retire ps = (case ps of [] \<Rightarrow> [] | p # qs \<Rightarrow> if p_x p < - PIPE_WIDTH then qs else p # qs)"

text \<open>Pipes from left to right, each an even number of pixels left of the right edge.\<close>

definition lined_up :: "Pipe list \<Rightarrow> bool" where
  "lined_up ps \<longleftrightarrow>
     sorted (map p_x ps) \<and> (\<forall>p\<in>set ps. \<exists>k\<ge>1. p_x p = WIDTH - 2 * k)"

definition is_tick :: "event \<Rightarrow> bool" where
  "is_tick e = (case e of Tick r \<Rightarrow> True | Activate \<Rightarrow> False)"

definition ticks_in :: "event list \<Rightarrow> nat" where
  "ticks_in es = length (filter is_tick es)"

text \<open>A run during which the game is being played before and after every event: the
  result is the last state, and \<open>None\<close> if the game was in another state at some
  point.\<close>

fun survive :: "event list \<Rightarrow> globals \<Rightarrow> globals option" where
  "survive [] s = (if gameState s = Game then Some s else None)"
| "survive (e # es) s = (if gameState s = Game then survive es (handle e s) else None)"

text \<open>The double that the literal \<^verbatim>\<open>0.7\<close> denotes, \<open>0x1.6666666666666p-1\<close>, as a value
  of \<^verbatim>\<open>Math.random()\<close>.\<close>

definition r07 :: rat where
  "r07 = 6305039478318694 / 2 ^ 53"

text \<open>A way of playing that keeps the bird in the air: a flap every 35 frames brings
  it back to the height of the flap before. With \<open>r07\<close> as the random number every pipe
  gets the gap from 194 to 294.\<close>

definition cycle :: "event list" where
  "cycle = replicate 35 (Tick r07) @ [Activate]"

fun flight :: "nat \<Rightarrow> event list" where
  "flight 0 = []"
| "flight (Suc n) = cycle @ flight n"

text \<open>The state right after a flap of that flight.\<close>

definition cruise :: "int \<Rightarrow> Pipe list \<Rightarrow> int \<Rightarrow> int \<Rightarrow> int \<Rightarrow> globals" where
  "cruise sc ps bx fr t =
     \<lparr>gameState = Game, score = sc, pipes = ps,
      bird = \<lparr>b_x = 60, b_y = 256, b_vy = - (9 / 2), b_frame = 1, b_rot = 17 / 40,
               b_radius = 12\<rparr>,
      baseX = bx, frame = fr, pipeSpawnTimer = t\<rparr>"

definition gap :: "int \<Rightarrow> bool \<Rightarrow> Pipe" where
  "gap x f = \<lparr>p_x = x, p_top = 194, p_bottom = 294, p_passed = f\<rparr>"

text \<open>A state of that flight right after a frame, at height \<open>y\<close> with velocity \<open>v\<close>.\<close>

definition aloft :: "rat \<Rightarrow> rat \<Rightarrow> int \<Rightarrow> Pipe list \<Rightarrow> int \<Rightarrow> int \<Rightarrow> int \<Rightarrow> globals" where
  "aloft y v sc ps bx fr t =
     \<lparr>gameState = Game, score = sc, pipes = ps,
      bird = \<lparr>b_x = 60, b_y = y, b_vy = v, b_frame = 1,
               b_rot = min MATH_PI_4 (v / 10), b_radius = 12\<rparr>,
      baseX = bx, frame = fr, pipeSpawnTimer = t\<rparr>"

text \<open>The state after a fall to the ground from the first flap, the game being over.\<close>

definition wreck :: "int \<Rightarrow> int \<Rightarrow> globals" where
  "wreck bx fr =
     \<lparr>gameState = Over, score = 0, pipes = [],
      bird = \<lparr>b_x = 60, b_y = 388, b_vy = 37 / 4, b_frame = 1, b_rot = MATH_PI_4,
               b_radius = 12\<rparr>,
      baseX = bx, frame = fr, pipeSpawnTimer = 55\<rparr>"

section \<open>The steps of update, field by field\<close>

lemmas cdefs = WIDTH_def HEIGHT_def GROUND_HEIGHT_def GRAVITY_def JUMP_def PIPE_GAP_def
  PIPE_DISTANCE_def PIPE_WIDTH_def BASE_Y_def

lemma forEach_pipes_Cons:
  "forEach_pipes (p # ps) s =
     (fst (pipe_body p s) # fst (forEach_pipes ps (snd (pipe_body p s))),
      snd (forEach_pipes ps (snd (pipe_body p s))))"
  by (simp add: split_beta)

lemma pipe_body_bird: "bird (snd (pipe_body p s)) = bird s"
  and pipe_body_pipes: "pipes (snd (pipe_body p s)) = pipes s"
  and pipe_body_baseX: "baseX (snd (pipe_body p s)) = baseX s"
  and pipe_body_frame: "frame (snd (pipe_body p s)) = frame s"
  and pipe_body_timer: "pipeSpawnTimer (snd (pipe_body p s)) = pipeSpawnTimer s"
  and pipe_body_fst: "fst (pipe_body p s) = mark (bird s) p"
  and pipe_body_score:
    "score (snd (pipe_body p s)) = score s + (if passing (bird s) p then 1 else 0)"
  and pipe_body_gameState:
    "gameState (snd (pipe_body p s)) = (if hits (bird s) p then Over else gameState s)"
  by (simp_all add: pipe_body_def Let_def mark_def passing_def hits_def)

lemmas pipe_body_simps = pipe_body_bird pipe_body_pipes pipe_body_baseX pipe_body_frame
  pipe_body_timer pipe_body_fst pipe_body_score pipe_body_gameState

lemma forEach_bird: "bird (snd (forEach_pipes ps s)) = bird s"
  by (induction ps arbitrary: s)
    (simp_all add: forEach_pipes_Cons pipe_body_simps del: forEach_pipes.simps(2))

lemma forEach_baseX: "baseX (snd (forEach_pipes ps s)) = baseX s"
  by (induction ps arbitrary: s)
    (simp_all add: forEach_pipes_Cons pipe_body_simps del: forEach_pipes.simps(2))

lemma forEach_frame: "frame (snd (forEach_pipes ps s)) = frame s"
  by (induction ps arbitrary: s)
    (simp_all add: forEach_pipes_Cons pipe_body_simps del: forEach_pipes.simps(2))

lemma forEach_timer: "pipeSpawnTimer (snd (forEach_pipes ps s)) = pipeSpawnTimer s"
  by (induction ps arbitrary: s)
    (simp_all add: forEach_pipes_Cons pipe_body_simps del: forEach_pipes.simps(2))

lemma forEach_fst: "fst (forEach_pipes ps s) = map (mark (bird s)) ps"
  by (induction ps arbitrary: s)
    (simp_all add: forEach_pipes_Cons pipe_body_simps del: forEach_pipes.simps(2))

lemma forEach_score:
  "score (snd (forEach_pipes ps s)) = score s + int (length (filter (passing (bird s)) ps))"
  by (induction ps arbitrary: s)
    (simp_all add: forEach_pipes_Cons pipe_body_simps del: forEach_pipes.simps(2))

lemma forEach_gameState:
  "gameState (snd (forEach_pipes ps s)) =
     (if \<exists>p\<in>set ps. hits (bird s) p then Over else gameState s)"
  by (induction ps arbitrary: s)
    (simp_all add: forEach_pipes_Cons pipe_body_simps del: forEach_pipes.simps(2))

lemma collisions_fields:
  "bird (collisions s) = bird s"
  "baseX (collisions s) = baseX s"
  "frame (collisions s) = frame s"
  "pipeSpawnTimer (collisions s) = pipeSpawnTimer s"
  "pipes (collisions s) = map (mark (bird s)) (pipes s)"
  "score (collisions s) = score s + int (length (filter (passing (bird s)) (pipes s)))"
  "gameState (collisions s) =
     (if \<exists>p\<in>set (pipes s). hits (bird s) p then Over else gameState s)"
  by (simp_all add: collisions_def split_beta forEach_bird forEach_baseX forEach_frame
      forEach_timer forEach_fst forEach_score forEach_gameState)

lemma pipes_logic_fields:
  "bird (pipes_logic r s) = bird s"
  "baseX (pipes_logic r s) = baseX s"
  "frame (pipes_logic r s) = frame s"
  "score (pipes_logic r s) = score s"
  "gameState (pipes_logic r s) = gameState s"
  "pipeSpawnTimer (pipes_logic r s) =
     (if pipeSpawnTimer s + 1 > PIPE_DISTANCE then 0 else pipeSpawnTimer s + 1)"
  "pipes (pipes_logic r s) =
     retire (map move_pipe
       (pipes s @ (if pipeSpawnTimer s + 1 > PIPE_DISTANCE then [new_pipe r] else [])))"
  by (simp_all add: pipes_logic_def Let_def spawnPipe_def retire_def split: list.splits)

lemma ground_fields:
  "baseX (ground s) = baseX s"
  "frame (ground s) = frame s"
  "score (ground s) = score s"
  "pipes (ground s) = pipes s"
  "pipeSpawnTimer (ground s) = pipeSpawnTimer s"
  "gameState (ground s) =
     (if b_y (bird s) + of_int (b_radius (bird s)) > of_int BASE_Y then Over
      else gameState s)"
  "bird (ground s) =
     (if b_y (bird s) + of_int (b_radius (bird s)) > of_int BASE_Y
      then (bird s)\<lparr>b_y := of_int (BASE_Y - b_radius (bird s))\<rparr> else bird s)"
  by (simp_all add: ground_def Let_def)

lemma physics_fields:
  "b_x (physics b) = b_x b"
  "b_radius (physics b) = b_radius b"
  "b_vy (physics b) = b_vy b + GRAVITY"
  "b_y (physics b) = b_y b + (b_vy b + GRAVITY)"
  "b_frame (physics b) =
     (if b_vy b + GRAVITY \<ge> JUMP then 1 else if b_vy b + GRAVITY < 0 then 0 else 2)"
  "b_rot (physics b) = min MATH_PI_4 ((b_vy b + GRAVITY) / 10)"
  by (simp_all add: physics_def Let_def)

lemma update_Game:
  "gameState s = Game \<Longrightarrow>
     update r s =
       (ground (collisions (pipes_logic r
          (s\<lparr>frame := frame s + 1, bird := physics (bird s)\<rparr>))))
         \<lparr>baseX := js_rem (baseX s - 2) WIDTH\<rparr>"
  by (simp add: update_def Let_def ground_fields collisions_fields pipes_logic_fields)

lemma update_Game_fields:
  assumes "gameState s = Game"
  shows "frame (update r s) = frame s + 1"
    and "baseX (update r s) = js_rem (baseX s - 2) WIDTH"
    and "pipeSpawnTimer (update r s) =
           (if pipeSpawnTimer s + 1 > PIPE_DISTANCE then 0 else pipeSpawnTimer s + 1)"
    and "pipes (update r s) = map (mark (physics (bird s))) (pipes (pipes_logic r s))"
    and "score (update r s) =
           score s
           + int (length (filter (passing (physics (bird s))) (pipes (pipes_logic r s))))"
    and "gameState (update r s) =
           (if b_y (physics (bird s)) + of_int (b_radius (bird s)) > of_int BASE_Y
               \<or> (\<exists>p\<in>set (pipes (pipes_logic r s)). hits (physics (bird s)) p)
            then Over else Game)"
    and "bird (update r s) =
           (if b_y (physics (bird s)) + of_int (b_radius (bird s)) > of_int BASE_Y
            then (physics (bird s))\<lparr>b_y := of_int (BASE_Y - b_radius (bird s))\<rparr>
            else physics (bird s))"
  using assms
  by (simp_all add: update_Game ground_fields collisions_fields pipes_logic_fields
      physics_fields)

lemma update_not_Game:
  "gameState s \<noteq> Game \<Longrightarrow>
     update r s = s\<lparr>frame := frame s + 1, baseX := js_rem (baseX s - 2) WIDTH\<rparr>"
  by (simp add: update_def Let_def)

lemma js_rem_wrap:
  assumes "- WIDTH < a" and "a \<le> 0"
  shows "js_rem (a - 2) WIDTH = (if - WIDTH < a - 2 then a - 2 else a - 2 + WIDTH)"
proof (cases "- WIDTH < a - 2")
  case True
  then have "\<bar>a - 2\<bar> mod \<bar>WIDTH\<bar> = 2 - a"
    using assms by (simp add: WIDTH_def)
  then show ?thesis
    using True assms by (simp add: js_rem_def sgn_if)
next
  case False
  then have "a = - 287 \<or> a = - 286"
    using assms by (auto simp: WIDTH_def)
  then show ?thesis
    by (auto simp: js_rem_def WIDTH_def)
qed

lemma flap_cases:
  "gameState s = Game \<Longrightarrow> flap s = s\<lparr>bird := (bird s)\<lparr>b_vy := JUMP\<rparr>\<rparr>"
  "gameState s = Over \<Longrightarrow> flap s = (resetGame s)\<lparr>gameState := Splash\<rparr>"
  "gameState s = Splash \<Longrightarrow>
     flap s = (resetGame s)\<lparr>gameState := Game, bird := (bird (resetGame s))\<lparr>b_vy := JUMP\<rparr>\<rparr>"
  by (simp_all add: flap_def Let_def)

lemma mark_fields:
  "p_x (mark b p) = p_x p" "p_top (mark b p) = p_top p" "p_bottom (mark b p) = p_bottom p"
  "p_passed (mark b p) \<longleftrightarrow> p_passed p \<or> b_x b > p_x p + PIPE_WIDTH"
  by (auto simp: mark_def passing_def)

lemma passing_physics: "passing (physics b) = passing b"
  by (simp add: passing_def fun_eq_iff physics_fields)

lemma mark_physics: "mark (physics b) = mark b"
  by (simp add: mark_def fun_eq_iff passing_physics)

section \<open>Rounding to a double: the exponent and the error\<close>

lemma round_even_error: "\<bar>of_int (round_even q) - q\<bar> \<le> 1 / 2"
proof -
  have "of_int \<lfloor>q\<rfloor> \<le> q" and "q < of_int \<lfloor>q\<rfloor> + 1"
    by linarith+
  then show ?thesis
    by (auto simp: round_even_def Let_def)
qed

lemma round_even_nonneg: "0 \<le> q \<Longrightarrow> 0 \<le> round_even q"
  by (auto simp: round_even_def Let_def)

lemma bitlen_rat_bounds:
  assumes "0 < m"
  shows "(2::rat) ^ nat (bitlen m - 1) \<le> of_int m"
    and "of_int m + 1 \<le> (2::rat) ^ nat (bitlen m)"
    and "1 \<le> bitlen m"
proof -
  from bitlen_bounds [OF assms]
  have lo: "2 ^ nat (bitlen m - 1) \<le> m" and hi: "m + 1 \<le> 2 ^ nat (bitlen m)"
    by simp_all
  from lo have "(of_int (2 ^ nat (bitlen m - 1)) :: rat) \<le> of_int m"
    by (simp only: of_int_le_iff)
  then show "(2::rat) ^ nat (bitlen m - 1) \<le> of_int m"
    by simp
  from hi have "(of_int (m + 1) :: rat) \<le> of_int (2 ^ nat (bitlen m))"
    by (simp only: of_int_le_iff)
  then show "of_int m + 1 \<le> (2::rat) ^ nat (bitlen m)"
    by simp
  show "1 \<le> bitlen m"
    using assms bitlen_nonneg [of m] bitlen_eq_zero_iff [of m] by linarith
qed

text \<open>\<open>expo\<close> is the binary exponent.\<close>

lemma expo_bounds:
  assumes "0 < x"
  shows "2 powi expo x \<le> x" and "x < 2 powi (expo x + 1)"
proof -
  have "2 powi expo x \<le> x \<and> x < 2 powi (expo x + 1)"
  proof (cases "1 \<le> x")
    case True
    define m where "m = \<lfloor>x\<rfloor>"
    have m: "0 < m" "of_int m \<le> x" "x < of_int m + 1"
      using True unfolding m_def by linarith+
    note b = bitlen_rat_bounds [OF m(1)]
    have e: "expo x = bitlen m - 1"
      using True by (simp add: expo_def m_def)
    have p1: "(2::rat) powi (bitlen m - 1) = 2 ^ nat (bitlen m - 1)"
      using b(3) by (simp add: power_int_nonneg_exp)
    have p2: "(2::rat) powi (bitlen m - 1 + 1) = 2 ^ nat (bitlen m)"
      using b(3) by (simp add: power_int_nonneg_exp)
    show ?thesis
      unfolding e p1 p2 using b(1,2) m(2,3) by linarith
  next
    case False
    define m where "m = \<lceil>1 / x\<rceil> - 1"
    have y: "1 < 1 / x"
      using assms False by simp
    have m: "0 < m" "of_int m < 1 / x" "1 / x \<le> of_int m + 1"
      using y unfolding m_def by linarith+
    note b = bitlen_rat_bounds [OF m(1)]
    have a1: "(2::rat) ^ nat (bitlen m - 1) < 1 / x"
      using b(1) m(2) by linarith
    have a2: "1 / x \<le> (2::rat) ^ nat (bitlen m)"
      using b(2) m(3) by linarith
    have e: "expo x = - bitlen m"
      using False by (simp add: expo_def m_def)
    have n1: "nat (- (- bitlen m)) = nat (bitlen m)" and n2: "\<not> 0 \<le> - bitlen m"
      using b(3) by simp_all
    have p1: "(2::rat) powi (- bitlen m) = 1 / 2 ^ nat (bitlen m)"
      unfolding power_int_def using n2 by (simp add: power_one_over inverse_eq_divide)
    have p2: "(2::rat) powi (- bitlen m + 1) = 1 / 2 ^ nat (bitlen m - 1)"
    proof (cases "bitlen m = 1")
      case True
      then show ?thesis by simp
    next
      case False
      then have "\<not> 0 \<le> - bitlen m + 1" and "nat (- (- bitlen m + 1)) = nat (bitlen m - 1)"
        using b(3) by simp_all
      then show ?thesis
        unfolding power_int_def by (simp add: power_one_over inverse_eq_divide)
    qed
    have pos1: "0 < (2::rat) ^ nat (bitlen m)" and pos2: "0 < (2::rat) ^ nat (bitlen m - 1)"
      by simp_all
    have "1 / (2::rat) ^ nat (bitlen m) \<le> x"
      using a2 assms pos1 by (simp add: field_simps)
    moreover have "x < 1 / (2::rat) ^ nat (bitlen m - 1)"
      using a1 assms pos2 by (simp add: field_simps)
    ultimately show ?thesis
      unfolding e p1 p2 by simp
  qed
  then show "2 powi expo x \<le> x" and "x < 2 powi (expo x + 1)"
    by simp_all
qed

lemma expo_unique:
  assumes "0 < x" and "2 powi e \<le> x" and "x < 2 powi (e + 1)"
  shows "expo x = e"
proof (rule ccontr)
  assume "expo x \<noteq> e"
  then consider "expo x + 1 \<le> e" | "e + 1 \<le> expo x"
    by linarith
  then show False
  proof cases
    case 1
    then have "(2::rat) powi (expo x + 1) \<le> 2 powi e"
      by (intro power_int_increasing) simp_all
    with expo_bounds(2) [OF assms(1)] assms(2) show False
      by linarith
  next
    case 2
    then have "(2::rat) powi (e + 1) \<le> 2 powi expo x"
      by (intro power_int_increasing) simp_all
    with expo_bounds(1) [OF assms(1)] assms(3) show False
      by linarith
  qed
qed

lemma expo_less:
  assumes "0 < x" and "x < 2 powi e"
  shows "expo x < e"
proof (rule ccontr)
  assume "\<not> expo x < e"
  then have "(2::rat) powi e \<le> 2 powi expo x"
    by (intro power_int_increasing) simp_all
  with expo_bounds(1) [OF assms(1)] assms(2) show False
    by linarith
qed

text \<open>Rounding moves a number by at most half the distance between the doubles around
  it.\<close>

lemma fl_error:
  assumes "x \<noteq> 0"
  shows "\<bar>fl x - x\<bar> \<le> 2 powi (max (expo \<bar>x\<bar>) (- 1022) - 52) / 2"
proof -
  define u :: rat where "u = 2 powi (max (expo \<bar>x\<bar>) (- 1022) - 52)"
  have u: "0 < u"
    by (simp add: u_def)
  have "fl x - x = (of_int (round_even (x / u)) - x / u) * u"
    using assms u by (simp add: fl_def u_def [symmetric] Let_def algebra_simps)
  then have "\<bar>fl x - x\<bar> = \<bar>of_int (round_even (x / u)) - x / u\<bar> * u"
    using u by (simp add: abs_mult)
  also have "\<dots> \<le> 1 / 2 * u"
    using round_even_error [of "x / u"] u by (intro mult_right_mono) simp_all
  finally show ?thesis
    by (simp add: u_def)
qed

lemma fl_nonneg: "0 \<le> x \<Longrightarrow> 0 \<le> fl x"
  by (auto simp: fl_def Let_def intro!: mult_nonneg_nonneg round_even_nonneg divide_nonneg_pos)

text \<open>Below 256 the doubles are at most \<open>2^-45\<close> apart.\<close>

lemma fl_error_256:
  assumes "0 \<le> x" and "x < 256"
  shows "\<bar>fl x - x\<bar> \<le> 1 / 2 ^ 46"
proof (cases "x = 0")
  case True
  then show ?thesis by (simp add: fl_def)
next
  case False
  then have pos: "0 < \<bar>x\<bar>" and ax: "\<bar>x\<bar> = x"
    using assms by simp_all
  have "x < 2 powi 8"
    using assms by simp
  then have "expo \<bar>x\<bar> < 8"
    using expo_less [OF pos] ax by simp
  then have "max (expo \<bar>x\<bar>) (- 1022) - 52 \<le> - 45"
    by simp
  then have "(2::rat) powi (max (expo \<bar>x\<bar>) (- 1022) - 52) \<le> 2 powi (- 45)"
    by (intro power_int_increasing) simp_all
  also have "(2::rat) powi (- 45) = 1 / 2 ^ 45"
    by (simp add: power_int_def field_simps)
  finally have "(2::rat) powi (max (expo \<bar>x\<bar>) (- 1022) - 52) / 2 \<le> 1 / 2 ^ 46"
    by simp
  with fl_error [OF False] show ?thesis
    by linarith
qed

text \<open>The doubles below 1 end at \<open>1 - 2^-53\<close>.\<close>

lemma double_below_1:
  assumes "double r" and "0 \<le> r" and "r < 1"
  shows "r \<le> 1 - 1 / 2 ^ 53"
proof (cases "r < 1 / 2")
  case True
  have "(1::rat) / 2 ^ 53 \<le> 1 / 2 ^ 1"
    by (intro divide_left_mono power_increasing) simp_all
  with True show ?thesis
    by simp
next
  case False
  then have pos: "0 < r" and ar: "\<bar>r\<bar> = r" and nz: "r \<noteq> 0"
    by simp_all
  have "(2::rat) powi (- 1) \<le> r" and "r < 2 powi (- 1 + 1)"
    using False assms(3) by simp_all
  then have e: "expo r = - 1"
    by (rule expo_unique [OF pos])
  define P :: rat where "P = 2 ^ 53"
  have P: "0 < P"
    by (simp add: P_def)
  have "(2::rat) powi (- 53) = inverse (2 powi 53)"
    by (rule power_int_minus)
  then have u: "(2::rat) powi (max (- 1) (- 1022) - 52) = 1 / P"
    by (simp add: P_def inverse_eq_divide)
  define k where "k = round_even (r / (1 / P))"
  from assms(1) have "fl r = r"
    unfolding double_def by blast
  moreover have "fl r = of_int k * (1 / P)"
    using nz unfolding fl_def Let_def ar e u k_def by simp
  ultimately have r: "r = of_int k / P"
    by simp
  then have "of_int k / P < 1"
    using assms(3) by simp
  then have "of_int k < P"
    using P by (simp add: field_simps)
  then have "(of_int k :: rat) < of_int (2 ^ 53)"
    unfolding P_def by simp
  then have "k < 2 ^ 53"
    by (simp only: of_int_less_iff)
  then have "k + 1 \<le> 2 ^ 53"
    by simp
  then have "(of_int (k + 1) :: rat) \<le> of_int (2 ^ 53)"
    by (simp only: of_int_le_iff)
  then have "of_int k + 1 \<le> P"
    unfolding P_def by simp
  then have "(of_int k + 1) / P \<le> 1"
    using P by (simp add: field_simps)
  then have "of_int k / P \<le> 1 - 1 / P"
    using P by (simp add: field_simps)
  then show ?thesis
    unfolding r P_def .
qed

text \<open>The random number \<open>r07\<close>: a double below 1 whose product with 220 is just below
  154 and rounds to 154.\<close>

lemma r07_range: "0 \<le> r07" "r07 < 1" "1 / 2 \<le> r07"
  by (simp_all add: r07_def)

lemma powi_minus_eval:
  "(2::rat) powi (- 53) = 1 / 2 ^ 53" "(2::rat) powi (- 45) = 1 / 2 ^ 45"
  by (simp_all add: power_int_minus inverse_eq_divide)

lemma double_r07: "double r07"
proof -
  have pos: "0 < r07" and ar: "\<bar>r07\<bar> = r07" and nz: "r07 \<noteq> 0"
    by (simp_all add: r07_def)
  have "(2::rat) powi (- 1) \<le> r07" and "r07 < 2 powi (- 1 + 1)"
    by (simp_all add: r07_def)
  then have e: "expo r07 = - 1"
    by (rule expo_unique [OF pos])
  have u: "(2::rat) powi (max (- 1) (- 1022) - 52) = 1 / 2 ^ 53"
    using powi_minus_eval(1) by simp
  have q: "r07 / (1 / 2 ^ 53) = 6305039478318694"
    by (simp add: r07_def)
  have "round_even 6305039478318694 = 6305039478318694"
    by (simp add: round_even_def)
  then have "fl r07 = r07"
    using nz unfolding fl_def Let_def ar e u q by (simp add: r07_def)
  moreover have "\<bar>r07\<bar> < 2 ^ 1024"
  proof -
    have "(1::rat) \<le> 2 ^ 1024"
      by (rule one_le_power) simp
    with r07_range(2) ar show ?thesis
      by linarith
  qed
  ultimately show ?thesis
    unfolding double_def by blast
qed

lemma floor_exact_r07: "\<lfloor>r07 * 220\<rfloor> = 153"
  by (simp add: r07_def floor_eq_iff)

lemma fl_r07_220: "fl (r07 * 220) = 154"
proof -
  define x where "x = r07 * 220"
  have x: "x = 346777171307528170 / 2 ^ 51"
    by (simp add: x_def r07_def)
  have pos: "0 < x" and ax: "\<bar>x\<bar> = x" and nz: "x \<noteq> 0"
    by (simp_all add: x)
  have "(2::rat) powi 7 \<le> x" and "x < 2 powi (7 + 1)"
    by (simp_all add: x)
  then have e: "expo x = 7"
    by (rule expo_unique [OF pos])
  have u: "(2::rat) powi (max 7 (- 1022) - 52) = 1 / 2 ^ 45"
    using powi_minus_eval(2) by simp
  have q: "x / (1 / 2 ^ 45) = 173388585653764085 / 32"
    by (simp add: x)
  have "\<lfloor>173388585653764085 / 32 :: rat\<rfloor> = 5418393301680127"
    by (simp add: floor_eq_iff)
  then have n: "round_even (173388585653764085 / 32) = 5418393301680128"
    by (simp add: round_even_def)
  have "fl x = 154"
    using nz unfolding fl_def Let_def ax e u q n by simp
  then show ?thesis
    by (simp add: x_def)
qed

lemma new_pipe_r07: "new_pipe r07 = gap 288 False"
  using fl_r07_220 by (simp add: new_pipe_def gap_def cdefs)

section \<open>The line of pipes\<close>

lemma lined_up_Nil: "lined_up []"
  by (simp add: lined_up_def)

lemma lined_up_mark: "lined_up (map (mark b) ps) = lined_up ps"
  by (simp add: lined_up_def o_def mark_fields)

lemma retire_cases: "retire ps = ps \<or> retire ps = tl ps"
  by (cases ps) (simp_all add: retire_def)

lemma lined_up_tl: "lined_up ps \<Longrightarrow> lined_up (tl ps)"
  by (cases ps) (auto simp: lined_up_def)

lemma lined_up_retire: "lined_up ps \<Longrightarrow> lined_up (retire ps)"
  using retire_cases [of ps] lined_up_tl [of ps] by auto

lemma map_x_move: "map p_x (map move_pipe ps) = map (\<lambda>x. x - 2) (map p_x ps)"
  by (simp add: move_pipe_def o_def)

lemma sorted_shift: "sorted xs \<Longrightarrow> sorted (map (\<lambda>x. x - 2) xs)" for xs :: "int list"
  by (induction xs) auto

lemma sorted_map_move: "sorted (map p_x ps) \<Longrightarrow> sorted (map p_x (map move_pipe ps))"
  by (simp only: map_x_move sorted_shift)

lemma lined_up_move:
  assumes "lined_up ps"
  shows "lined_up (map move_pipe ps)"
  unfolding lined_up_def
proof (intro conjI ballI)
  from assms have "sorted (map p_x ps)"
    unfolding lined_up_def by blast
  then show "sorted (map p_x (map move_pipe ps))"
    by (rule sorted_map_move)
next
  fix q assume "q \<in> set (map move_pipe ps)"
  then obtain p where p: "p \<in> set ps" and q: "q = move_pipe p"
    by auto
  from assms p obtain k where "k \<ge> 1" and "p_x p = WIDTH - 2 * k"
    by (auto simp: lined_up_def)
  then have "k + 1 \<ge> 1 \<and> p_x q = WIDTH - 2 * (k + 1)"
    by (simp add: q move_pipe_def)
  then show "\<exists>k\<ge>1. p_x q = WIDTH - 2 * k"
    by blast
qed

lemma lined_up_spawn_move:
  assumes "lined_up ps"
  shows "lined_up (map move_pipe (ps @ [new_pipe r]))"
  unfolding lined_up_def
proof (intro conjI ballI)
  have le: "\<forall>p\<in>set ps. p_x p \<le> WIDTH"
    using assms by (fastforce simp: lined_up_def)
  have "sorted (map p_x (ps @ [new_pipe r]))"
    using assms le by (auto simp: lined_up_def sorted_append new_pipe_def Let_def)
  then show "sorted (map p_x (map move_pipe (ps @ [new_pipe r])))"
    by (rule sorted_map_move)
next
  fix q assume "q \<in> set (map move_pipe (ps @ [new_pipe r]))"
  then consider "q \<in> set (map move_pipe ps)" | "q = move_pipe (new_pipe r)"
    by auto
  then show "\<exists>k\<ge>1. p_x q = WIDTH - 2 * k"
  proof cases
    case 1
    from lined_up_move [OF assms]
    have "\<forall>p\<in>set (map move_pipe ps). \<exists>k\<ge>1. p_x p = WIDTH - 2 * k"
      unfolding lined_up_def by blast
    with 1 show ?thesis by blast
  next
    case 2
    then have "(1::int) \<ge> 1 \<and> p_x q = WIDTH - 2 * 1"
      by (simp add: move_pipe_def new_pipe_def Let_def)
    then show ?thesis by blast
  qed
qed

lemma lined_up_update:
  assumes "lined_up (pipes s)"
  shows "lined_up (pipes (update r s))"
proof (cases "gameState s = Game")
  case True
  have "lined_up (map move_pipe
       (pipes s @ (if pipeSpawnTimer s + 1 > PIPE_DISTANCE then [new_pipe r] else [])))"
    using lined_up_spawn_move [OF assms] lined_up_move [OF assms] by simp
  then show ?thesis
    by (simp add: update_Game_fields [OF True] lined_up_mark pipes_logic_fields
        lined_up_retire)
next
  case False
  then show ?thesis
    using assms by (simp add: update_not_Game)
qed

lemma lined_up_flap:
  assumes "lined_up (pipes s)"
  shows "lined_up (pipes (flap s))"
  using assms by (cases "gameState s") (simp_all add: flap_def resetGame_def lined_up_Nil)

lemma reachable_lined_up: "reachable s \<Longrightarrow> lined_up (pipes s)"
proof (induction rule: reachable.induct)
  case reachable_initial
  show ?case by (simp add: initial_def lined_up_Nil)
next
  case (reachable_update s r)
  then show ?case by (simp add: lined_up_update)
next
  case (reachable_flap s)
  then show ?case by (simp add: lined_up_flap)
qed

lemma reachable_run:
  assumes "reachable s"
    and "\<forall>e\<in>set es. e = Activate \<or> (\<exists>r. e = Tick r \<and> 0 \<le> r \<and> r < 1)"
  shows "reachable (run es s)"
  using assms
proof (induction es arbitrary: s)
  case Nil
  then show ?case by simp
next
  case (Cons e es)
  from Cons.prems have "reachable (handle e s)"
    by (auto intro: reachable.intros)
  with Cons show ?case by simp
qed

section \<open>Runs in which the game is played throughout\<close>

lemma ticks_in_simps:
  "ticks_in [] = 0"
  "ticks_in (Tick r # es) = Suc (ticks_in es)"
  "ticks_in (Activate # es) = ticks_in es"
  "ticks_in (es @ fs) = ticks_in es + ticks_in fs"
  by (simp_all add: ticks_in_def is_tick_def)

lemma ticks_in_replicate: "ticks_in (replicate n (Tick r)) = n"
  by (induction n) (simp_all add: ticks_in_simps)

lemma no_pipe_before:
  "pipes s = [] \<Longrightarrow> 0 \<le> pipeSpawnTimer s
     \<Longrightarrow> pipeSpawnTimer s + int (ticks_in es) \<le> PIPE_DISTANCE
     \<Longrightarrow> pipes (run es s) = []"
proof (induction es arbitrary: s)
  case Nil
  then show ?case by simp
next
  case (Cons e es)
  show ?case
  proof (cases e)
    case (Tick r)
    have "pipes (update r s) = [] \<and> 0 \<le> pipeSpawnTimer (update r s)
        \<and> pipeSpawnTimer (update r s) \<le> pipeSpawnTimer s + 1"
    proof (cases "gameState s = Game")
      case True
      then show ?thesis
        using Cons.prems Tick
        by (simp add: update_Game_fields pipes_logic_fields retire_def ticks_in_simps)
    next
      case False
      then show ?thesis
        using Cons.prems by (simp add: update_not_Game)
    qed
    then show ?thesis
      using Cons.prems Tick Cons.IH [of "update r s"] by (simp add: ticks_in_simps)
  next
    case Activate
    have "pipes (flap s) = [] \<and> 0 \<le> pipeSpawnTimer (flap s)
        \<and> pipeSpawnTimer (flap s) \<le> pipeSpawnTimer s"
      using Cons.prems by (cases "gameState s") (simp_all add: flap_cases resetGame_def)
    then show ?thesis
      using Cons.prems Activate Cons.IH [of "flap s"] by (simp add: ticks_in_simps)
  qed
qed

lemma survive_Game: "survive es s = Some t \<Longrightarrow> gameState s = Game"
  by (cases es) (simp_all split: if_splits)

lemma survive_run: "survive es s = Some t \<Longrightarrow> run es s = t \<and> gameState t = Game"
  by (induction es arbitrary: s) (simp_all split: if_splits)

lemma survive_append:
  "survive (es @ fs) s = (case survive es s of None \<Rightarrow> None | Some t \<Rightarrow> survive fs t)"
proof (induction es arbitrary: s)
  case Nil
  then show ?case by (cases fs) simp_all
next
  case (Cons e es)
  then show ?case by simp
qed

lemma survive_snoc:
  "survive (es @ [e]) s = Some t \<longleftrightarrow>
     (\<exists>u. survive es s = Some u \<and> t = handle e u \<and> gameState t = Game)"
  by (auto simp: survive_append survive_Game split: option.splits if_splits
      dest: survive_run)

lemma pipes_x_update:
  assumes "gameState u = Game"
  shows "map p_x (pipes (update r u)) =
     (case map (\<lambda>x. x - 2)
            (map p_x (pipes u) @ (if pipeSpawnTimer u + 1 > PIPE_DISTANCE then [WIDTH] else []))
      of [] \<Rightarrow> [] | x # ys \<Rightarrow> if x < - PIPE_WIDTH then ys else x # ys)"
proof -
  have r: "map p_x (retire ps) =
      (case map p_x ps of [] \<Rightarrow> [] | x # ys \<Rightarrow> if x < - PIPE_WIDTH then ys else x # ys)" for ps
    by (cases ps) (simp_all add: retire_def)
  have m: "map p_x (map (mark b) ps) = map p_x ps" for b ps
    by (simp add: o_def mark_fields)
  have n: "p_x (new_pipe r) = WIDTH"
    by (simp add: new_pipe_def Let_def)
  show ?thesis
    unfolding update_Game_fields [OF assms] m pipes_logic_fields r map_x_move
    by (simp add: n)
qed

text \<open>The spawn timer and the pipes' positions after \<open>n\<close> frames of play, up to the
  second spawn.\<close>

lemma cadence:
  assumes "survive es (flap initial) = Some t"
  shows "(ticks_in es \<le> 140 \<longrightarrow>
            pipeSpawnTimer t = int (ticks_in es) \<and> map p_x (pipes t) = [])
       \<and> (141 \<le> ticks_in es \<and> ticks_in es \<le> 281 \<longrightarrow>
            pipeSpawnTimer t = int (ticks_in es) - 141
            \<and> map p_x (pipes t) = [WIDTH - 2 * (int (ticks_in es) - 140)])
       \<and> (ticks_in es = 282 \<longrightarrow>
            pipeSpawnTimer t = 0 \<and> map p_x (pipes t) = [WIDTH - 2 * 142, WIDTH - 2])"
  using assms
proof (induction es arbitrary: t rule: rev_induct)
  case Nil
  then have "t = flap initial"
    by (simp split: if_splits)
  then show ?case
    by (simp add: ticks_in_simps flap_def initial_def resetGame_def)
next
  case (snoc e es)
  from snoc.prems obtain u where u: "survive es (flap initial) = Some u"
    and t: "t = handle e u" and gt: "gameState t = Game"
    by (auto simp: survive_snoc)
  have gu: "gameState u = Game"
    using survive_run [OF u] by simp
  note IH = snoc.IH [OF u]
  show ?case
  proof (cases e)
    case Activate
    then have "pipes t = pipes u" "pipeSpawnTimer t = pipeSpawnTimer u"
      using gu t by (simp_all add: flap_cases)
    then show ?thesis
      using IH Activate by (simp add: ticks_in_simps)
  next
    case (Tick r)
    have tu: "t = update r u"
      using t Tick by simp
    have n: "ticks_in (es @ [e]) = Suc (ticks_in es)"
      using Tick by (simp add: ticks_in_simps)
    note x = pipes_x_update [OF gu, of r]
    note tm = update_Game_fields(3) [OF gu, of r]
    consider "ticks_in es < 140" | "ticks_in es = 140"
      | "141 \<le> ticks_in es" "ticks_in es < 281" | "ticks_in es = 281" | "282 \<le> ticks_in es"
      by linarith
    then show ?thesis
    proof cases
      case 1
      then show ?thesis
        using IH unfolding n tu x tm
        by (simp add: PIPE_DISTANCE_def)
    next
      case 2
      then show ?thesis
        using IH unfolding n tu x tm
        by (simp add: PIPE_DISTANCE_def WIDTH_def PIPE_WIDTH_def)
    next
      case 3
      then show ?thesis
        using IH unfolding n tu x tm
        by (simp add: PIPE_DISTANCE_def WIDTH_def PIPE_WIDTH_def)
    next
      case 4
      then show ?thesis
        using IH unfolding n tu x tm
        by (simp add: PIPE_DISTANCE_def WIDTH_def PIPE_WIDTH_def)
    next
      case 5
      then show ?thesis
        unfolding n by simp
    qed
  qed
qed

section \<open>One frame and one flap on explicit states\<close>

lemma MATH_PI_4_eval: "MATH_PI_4 = 884279719003555 / 1125899906842624"
  by (simp add: MATH_PI_4_def)

lemma js_rem_eval:
  "js_rem 0 (numeral n) = 0"
  "js_rem (numeral m) (numeral n) = numeral m mod numeral n"
  "js_rem (- numeral m) (numeral n) = - (numeral m mod numeral n)"
  by (simp_all add: js_rem_def)

lemma physics_lit:
  "physics \<lparr>b_x = x, b_y = y, b_vy = v, b_frame = f, b_rot = ro, b_radius = ra\<rparr> =
     \<lparr>b_x = x, b_y = y + (v + GRAVITY), b_vy = v + GRAVITY,
      b_frame = (if v + GRAVITY \<ge> JUMP then 1 else if v + GRAVITY < 0 then 0 else 2),
      b_rot = min MATH_PI_4 ((v + GRAVITY) / 10), b_radius = ra\<rparr>"
  by (simp add: physics_def Let_def)

lemma update_Game_lit:
  assumes "gameState s = Game"
  shows "update r s =
    \<lparr>gameState =
       (if b_y (physics (bird s)) + of_int (b_radius (bird s)) > of_int BASE_Y
               \<or> (\<exists>p\<in>set (pipes (pipes_logic r s)). hits (physics (bird s)) p)
            then Over else Game),
     score = score s
       + int (length (filter (passing (physics (bird s))) (pipes (pipes_logic r s)))),
     pipes = map (mark (physics (bird s))) (pipes (pipes_logic r s)),
     bird = (if b_y (physics (bird s)) + of_int (b_radius (bird s)) > of_int BASE_Y
            then (physics (bird s))\<lparr>b_y := of_int (BASE_Y - b_radius (bird s))\<rparr>
            else physics (bird s)),
     baseX = js_rem (baseX s - 2) WIDTH,
     frame = frame s + 1,
     pipeSpawnTimer =
       (if pipeSpawnTimer s + 1 > PIPE_DISTANCE then 0 else pipeSpawnTimer s + 1)\<rparr>"
  by (rule globals.equality) (simp_all add: update_Game_fields [OF assms])

lemma update_lit:
  "update r \<lparr>gameState = Game, score = sc, pipes = ps,
       bird = \<lparr>b_x = x, b_y = y, b_vy = v, b_frame = f, b_rot = ro, b_radius = ra\<rparr>,
       baseX = bx, frame = fr, pipeSpawnTimer = t\<rparr> =
    \<lparr>gameState =
       (if y + (v + GRAVITY) + of_int ra > of_int BASE_Y
           \<or> (\<exists>p\<in>set (retire (map move_pipe
                 (ps @ (if t + 1 > PIPE_DISTANCE then [new_pipe r] else [])))).
                x + ra > p_x p \<and> x - ra < p_x p + PIPE_WIDTH
                \<and> (y + (v + GRAVITY) - of_int ra < of_int (p_top p)
                   \<or> y + (v + GRAVITY) + of_int ra > of_int (p_bottom p)))
        then Over else Game),
     score = sc + int (length (filter (\<lambda>p. \<not> p_passed p \<and> x > p_x p + PIPE_WIDTH)
         (retire (map move_pipe
                 (ps @ (if t + 1 > PIPE_DISTANCE then [new_pipe r] else [])))))),
     pipes = map (\<lambda>p. if \<not> p_passed p \<and> x > p_x p + PIPE_WIDTH
                       then p\<lparr>p_passed := True\<rparr> else p)
         (retire (map move_pipe
                 (ps @ (if t + 1 > PIPE_DISTANCE then [new_pipe r] else [])))),
     bird = \<lparr>b_x = x,
        b_y = (if y + (v + GRAVITY) + of_int ra > of_int BASE_Y then of_int (BASE_Y - ra)
               else y + (v + GRAVITY)),
        b_vy = v + GRAVITY,
        b_frame = (if v + GRAVITY \<ge> JUMP then 1 else if v + GRAVITY < 0 then 0 else 2),
        b_rot = min MATH_PI_4 ((v + GRAVITY) / 10), b_radius = ra\<rparr>,
     baseX = js_rem (bx - 2) WIDTH,
     frame = fr + 1,
     pipeSpawnTimer = (if t + 1 > PIPE_DISTANCE then 0 else t + 1)\<rparr>"
proof -
  have 1: "passing \<lparr>b_x = x, b_y = y', b_vy = v', b_frame = f', b_rot = ro', b_radius = ra\<rparr>
      = (\<lambda>p. \<not> p_passed p \<and> x > p_x p + PIPE_WIDTH)" for y' v' f' ro'
    by (simp add: fun_eq_iff passing_def)
  have 2: "mark \<lparr>b_x = x, b_y = y', b_vy = v', b_frame = f', b_rot = ro', b_radius = ra\<rparr>
      = (\<lambda>p. if \<not> p_passed p \<and> x > p_x p + PIPE_WIDTH then p\<lparr>p_passed := True\<rparr> else p)"
    for y' v' f' ro'
    by (simp add: fun_eq_iff mark_def passing_def)
  have 3: "hits \<lparr>b_x = x, b_y = y', b_vy = v', b_frame = f', b_rot = ro', b_radius = ra\<rparr>
      = (\<lambda>p. x + ra > p_x p \<and> x - ra < p_x p + PIPE_WIDTH
                \<and> (y' - of_int ra < of_int (p_top p) \<or> y' + of_int ra > of_int (p_bottom p)))"
    for y' v' f' ro'
    by (simp add: fun_eq_iff hits_def)
  show ?thesis
    by (simp add: update_Game_lit physics_lit pipes_logic_fields 1 2 3)
qed

lemma update_Over_lit:
  "update r \<lparr>gameState = Over, score = sc, pipes = ps, bird = b,
       baseX = bx, frame = fr, pipeSpawnTimer = t\<rparr> =
    \<lparr>gameState = Over, score = sc, pipes = ps, bird = b,
       baseX = js_rem (bx - 2) WIDTH, frame = fr + 1, pipeSpawnTimer = t\<rparr>"
  by (simp add: update_not_Game)

lemma update_Splash_lit:
  "update r \<lparr>gameState = Splash, score = sc, pipes = ps, bird = b,
       baseX = bx, frame = fr, pipeSpawnTimer = t\<rparr> =
    \<lparr>gameState = Splash, score = sc, pipes = ps, bird = b,
       baseX = js_rem (bx - 2) WIDTH, frame = fr + 1, pipeSpawnTimer = t\<rparr>"
  by (simp add: update_not_Game)

lemma flap_lit:
  "flap \<lparr>gameState = Game, score = sc, pipes = ps,
       bird = \<lparr>b_x = x, b_y = y, b_vy = v, b_frame = f, b_rot = ro, b_radius = ra\<rparr>,
       baseX = bx, frame = fr, pipeSpawnTimer = t\<rparr> =
    \<lparr>gameState = Game, score = sc, pipes = ps,
       bird = \<lparr>b_x = x, b_y = y, b_vy = JUMP, b_frame = f, b_rot = ro, b_radius = ra\<rparr>,
       baseX = bx, frame = fr, pipeSpawnTimer = t\<rparr>"
  by (simp add: flap_def)

lemma flap_initial:
  "flap initial =
     \<lparr>gameState = Game, score = 0, pipes = [],
      bird = \<lparr>b_x = 60, b_y = 256, b_vy = - (9 / 2), b_frame = 0, b_rot = 0, b_radius = 12\<rparr>,
      baseX = 0, frame = 0, pipeSpawnTimer = 0\<rparr>"
  by (simp add: flap_def initial_def resetGame_def HEIGHT_def JUMP_def)

lemmas eval_simps = update_lit update_Over_lit update_Splash_lit flap_lit flap_initial
  retire_def move_pipe_def new_pipe_r07 cdefs js_rem_eval MATH_PI_4_eval cruise_def gap_def aloft_def

section \<open>The flight, cycle by cycle\<close>

lemma leg1: "survive cycle (flap initial) = Some (cruise 0 [] (- 70) 35 35)"
  by (simp add: cycle_def eval_simps numeral_eq_Suc)

lemma leg2: "survive cycle (cruise 0 [] (- 70) 35 35) = Some (cruise 0 [] (- 140) 70 70)"
  by (simp add: cycle_def eval_simps numeral_eq_Suc)

lemma leg3: "survive cycle (cruise 0 [] (- 140) 70 70) = Some (cruise 0 [] (- 210) 105 105)"
  by (simp add: cycle_def eval_simps numeral_eq_Suc)

lemma leg4: "survive cycle (cruise 0 [] (- 210) 105 105) = Some (cruise 0 [] (- 280) 140 140)"
  by (simp add: cycle_def eval_simps numeral_eq_Suc)

lemma leg5:
  "survive cycle (cruise 0 [] (- 280) 140 140) = Some (cruise 0 [gap 218 False] (- 62) 175 34)"
  by (simp add: cycle_def eval_simps numeral_eq_Suc)

lemma leg6:
  "survive cycle (cruise 0 [gap 218 False] (- 62) 175 34)
     = Some (cruise 0 [gap 148 False] (- 132) 210 69)"
  by (simp add: cycle_def eval_simps numeral_eq_Suc)

lemma leg7:
  "survive cycle (cruise 0 [gap 148 False] (- 132) 210 69)
     = Some (cruise 0 [gap 78 False] (- 202) 245 104)"
  by (simp add: cycle_def eval_simps numeral_eq_Suc)

lemma leg8:
  "survive cycle (cruise 0 [gap 78 False] (- 202) 245 104)
     = Some (cruise 0 [gap 8 False] (- 272) 280 139)"
  by (simp add: cycle_def eval_simps numeral_eq_Suc)

lemma flight7: "survive (flight 7) (flap initial) = Some (cruise 0 [gap 78 False] (- 202) 245 104)"
  by (simp add: eval_nat_numeral survive_append leg1 leg2 leg3 leg4 leg5 leg6 leg7)

lemma flight8: "survive (flight 8) (flap initial) = Some (cruise 0 [gap 8 False] (- 272) 280 139)"
  by (simp add: eval_nat_numeral survive_append leg1 leg2 leg3 leg4 leg5 leg6 leg7 leg8)

lemma tail29:
  "survive (replicate 29 (Tick r07)) (cruise 0 [gap 78 False] (- 202) 245 104)
     = Some (aloft (937 / 4) (11 / 4) 0 [gap 20 False] (- 260) 274 133)"
  by (simp add: eval_simps numeral_eq_Suc)

lemma frame275:
  "update r07 (aloft (937 / 4) (11 / 4) 0 [gap 20 False] (- 260) 274 133)
     = aloft (949 / 4) 3 0 [gap 18 False] (- 262) 275 134"
  by (simp add: eval_simps)

lemma frame281:
  "update r07 (cruise 0 [gap 8 False] (- 272) 280 139)
     = aloft (1007 / 4) (- (17 / 4)) 1 [gap 6 True] (- 274) 281 140"
  by (simp add: eval_simps)

lemma frame282:
  "update r07 (aloft (1007 / 4) (- (17 / 4)) 1 [gap 6 True] (- 274) 281 140)
     = aloft (991 / 4) (- 4) 1 [gap 4 True, gap 286 False] (- 276) 282 0"
  by (simp add: eval_simps)

lemma frame311:
  "update r07 (aloft (949 / 4) 3 1 [gap (- 52) True, gap 230 False] (- 44) 310 28)
     = aloft (481 / 2) (13 / 4) 1 [gap 228 False] (- 46) 311 29"
  by (simp add: eval_simps)

lemma frame141:
  "update r07 (cruise 0 [] (- 280) 140 140)
     = aloft (1007 / 4) (- (17 / 4)) 0 [gap 286 False] (- 282) 141 0"
  by (simp add: eval_simps)

lemma fall54:
  "survive (replicate 54 (Tick r07)) (flap initial)
     = Some (aloft (1537 / 4) 9 0 [] (- 108) 54 54)"
  by (simp add: eval_simps numeral_eq_Suc)

lemma crash140:
  "run (replicate 86 (Tick r07)) (aloft (1537 / 4) 9 0 [] (- 108) 54 54)
     = wreck (- 280) 140"
  by (simp add: eval_simps wreck_def numeral_eq_Suc)

lemma over143: "run (replicate 3 (Tick r07)) (wreck (- 280) 140) = wreck (- 286) 143"
  by (simp add: eval_simps wreck_def numeral_eq_Suc)

lemma run_append: "run (es @ fs) s = run fs (run es s)"
  by (induction es arbitrary: s) simp_all

lemma run140:
  "run (Activate # replicate 54 (Tick r07) @ replicate 86 (Tick r07)) initial
     = wreck (- 280) 140"
  using survive_run [OF fall54] by (simp add: run_append crash140)

lemma run143:
  "run (Activate # replicate 54 (Tick r07) @ replicate 86 (Tick r07)
          @ replicate 3 (Tick r07)) initial
     = wreck (- 286) 143"
  using survive_run [OF fall54] by (simp add: run_append crash140 over143)

lemma ticks_in_cycle: "ticks_in cycle = 35"
  by (simp add: cycle_def ticks_in_simps ticks_in_replicate)

lemma ticks_in_flight: "ticks_in (flight n) = 35 * n"
  by (induction n) (simp_all add: ticks_in_simps ticks_in_cycle)

lemma flight_events: "e \<in> set (flight n) \<Longrightarrow> e = Activate \<or> e = Tick r07"
  by (induction n) (auto simp: cycle_def)

lemma flight282:
  "survive (flight 8 @ [Tick r07, Tick r07]) (flap initial)
     = Some (aloft (991 / 4) (- 4) 1 [gap 4 True, gap 286 False] (- 276) 282 0)"
proof -
  have "gameState (cruise 0 [gap 8 False] (- 272) 280 139) = Game"
    and "gameState (aloft (1007 / 4) (- (17 / 4)) 1 [gap 6 True] (- 274) 281 140) = Game"
    and "gameState (aloft (991 / 4) (- 4) 1 [gap 4 True, gap 286 False] (- 276) 282 0) = Game"
    by (simp_all add: cruise_def aloft_def)
  then show ?thesis
    by (simp add: survive_append flight8 frame281 frame282)
qed

lemma reachable282:
  "reachable (aloft (991 / 4) (- 4) 1 [gap 4 True, gap 286 False] (- 276) 282 0)"
proof -
  let ?es = "Activate # flight 8 @ [Tick r07, Tick r07]"
  have "\<forall>e\<in>set ?es. e = Activate \<or> (\<exists>r. e = Tick r \<and> 0 \<le> r \<and> r < 1)"
    using flight_events [of _ 8] r07_range by fastforce
  then have "reachable (run ?es initial)"
    by (rule reachable_run [OF reachable_initial])
  then show ?thesis
    using survive_run [OF flight282] by simp
qed

section \<open>Properties\<close>

subsection \<open>Physics\<close>

text \<open>
  C1. In a frame that starts while the game is being played, \<^verbatim>\<open>update\<close> first adds
  \<open>GRAVITY = 0.25\<close> to the vertical velocity and then adds the new velocity to the
  height. The velocity at the end of the frame is the old one plus \<open>GRAVITY\<close>; the height
  at the end of the frame is the one that the physics gives, unless the ground test of
  the same frame replaces it. Over any number of frames in a row, each starting while the
  game is being played and with no key press between them, the velocity grows by
  \<open>GRAVITY\<close> per frame.
\<close>

theorem gravity_step:
  "(gameState s = Game \<longrightarrow>
      b_vy (physics (bird s)) = b_vy (bird s) + GRAVITY
    \<and> b_y (physics (bird s)) = b_y (bird s) + b_vy (physics (bird s))
    \<and> b_vy (bird (update r s)) = b_vy (physics (bird s))
    \<and> b_y (bird (update r s))
        = (if b_y (physics (bird s)) + of_int (b_radius (bird s)) > of_int BASE_Y
           then of_int (BASE_Y - b_radius (bird s)) else b_y (physics (bird s))))
   \<and> ((\<forall>k < length rs. gameState (run (map Tick (take k rs)) s) = Game) \<longrightarrow>
        b_vy (bird (run (map Tick rs) s)) = b_vy (bird s) + of_nat (length rs) * GRAVITY)
   \<and> GRAVITY = 1 / 4"
proof -
  have one: "b_vy (bird (update q t)) = b_vy (bird t) + GRAVITY" if "gameState t = Game"
    for q t
    using that by (simp add: update_Game_fields physics_fields)
  have many: "(\<forall>k < length rs. gameState (run (map Tick (take k rs)) s) = Game) \<Longrightarrow>
        b_vy (bird (run (map Tick rs) s)) = b_vy (bird s) + of_nat (length rs) * GRAVITY"
  proof (induction rs arbitrary: s)
    case Nil
    then show ?case by simp
  next
    case (Cons q qs)
    have "0 < length (q # qs)"
      by simp
    from Cons.prems [rule_format, OF this] have g: "gameState s = Game"
      by simp
    have "\<forall>k < length qs. gameState (run (map Tick (take k qs)) (update q s)) = Game"
    proof (intro allI impI)
      fix k assume "k < length qs"
      then have "Suc k < length (q # qs)"
        by simp
      from Cons.prems [rule_format, OF this]
      show "gameState (run (map Tick (take k qs)) (update q s)) = Game"
        by simp
    qed
    from Cons.IH [OF this] show ?case
      using one [OF g, of q] by (simp add: algebra_simps)
  qed
  show ?thesis
    using many by (simp add: update_Game_fields physics_fields GRAVITY_def)
qed

theorem gravity_step_witness:
  "gameState (flap initial) = Game
   \<and> gameState (update r07 (flap initial)) = Game
   \<and> b_vy (bird (flap initial)) = - (9 / 2)
   \<and> b_vy (bird (update r07 (flap initial))) = - (17 / 4)
   \<and> b_y (bird (update r07 (flap initial))) = 256 + - (17 / 4)
   \<and> b_vy (bird (run (map Tick [r07, r07]) (flap initial))) = - 4"
proof -
  have g0: "gameState (flap initial) = Game"
    by (simp add: flap_initial)
  have v0: "b_vy (bird (flap initial)) = - (9 / 2)"
    by (simp add: flap_initial)
  have s1: "update r07 (flap initial) = aloft (1007 / 4) (- (17 / 4)) 0 [] (- 2) 1 1"
    by (simp add: eval_simps)
  have g1: "gameState (update r07 (flap initial)) = Game"
    unfolding s1 by (simp add: aloft_def)
  have v1: "b_vy (bird (update r07 (flap initial))) = - (17 / 4)"
    unfolding s1 by (simp add: aloft_def)
  have y1: "b_y (bird (update r07 (flap initial))) = 256 + - (17 / 4)"
    unfolding s1 by (simp add: aloft_def)
  have "\<forall>k < length [r07, r07].
      gameState (run (map Tick (take k [r07, r07])) (flap initial)) = Game"
  proof (intro allI impI)
    fix k :: nat assume "k < length [r07, r07]"
    then consider "k = 0" | "k = 1"
      by fastforce
    then show "gameState (run (map Tick (take k [r07, r07])) (flap initial)) = Game"
    proof cases
      case 1
      then show ?thesis by (simp add: g0)
    next
      case 2
      then show ?thesis by (simp add: g1)
    qed
  qed
  with gravity_step [of "flap initial" r07 "[r07, r07]"]
  have "b_vy (bird (run (map Tick [r07, r07]) (flap initial)))
      = b_vy (bird (flap initial)) + of_nat (length [r07, r07]) * GRAVITY"
    by blast
  then have "b_vy (bird (run (map Tick [r07, r07]) (flap initial))) = - 4"
    unfolding v0 by (simp add: GRAVITY_def)
  with g0 g1 v0 v1 y1 show ?thesis
    by blast
qed

text \<open>
  C2. In a frame that starts while the game is being played, if the bird's height after
  the physics step plus its radius exceeds the ground level
  \<open>BASE_Y = HEIGHT - GROUND_HEIGHT = 400\<close>, the frame ends with the game over and with the
  bird's height equal to \<open>BASE_Y\<close> minus its radius.
\<close>

theorem floor_collision:
  assumes "gameState s = Game"
    and "b_y (physics (bird s)) + of_int (b_radius (bird s)) > of_int BASE_Y"
  shows "gameState (update r s) = Over
     \<and> b_y (bird (update r s)) = of_int (BASE_Y - b_radius (bird s))
     \<and> BASE_Y = HEIGHT - GROUND_HEIGHT \<and> BASE_Y = 400"
  using assms by (simp add: update_Game_fields cdefs)

theorem floor_collision_witness:
  "run (Activate # replicate 54 (Tick r07)) initial = aloft (1537 / 4) 9 0 [] (- 108) 54 54
   \<and> gameState (aloft (1537 / 4) 9 0 [] (- 108) 54 54) = Game
   \<and> b_y (physics (bird (aloft (1537 / 4) 9 0 [] (- 108) 54 54))) + 12 = 811 / 2
   \<and> gameState (update r07 (aloft (1537 / 4) 9 0 [] (- 108) 54 54)) = Over
   \<and> b_y (bird (update r07 (aloft (1537 / 4) 9 0 [] (- 108) 54 54))) = 388"
proof -
  let ?s = "aloft (1537 / 4) 9 0 [] (- 108) 54 54"
  have g: "gameState ?s = Game"
    by (simp add: aloft_def)
  have y: "b_y (physics (bird ?s)) + 12 = 811 / 2"
    by (simp add: aloft_def physics_lit GRAVITY_def)
  have h: "b_y (physics (bird ?s)) + of_int (b_radius (bird ?s)) > of_int BASE_Y"
    by (simp add: aloft_def physics_lit cdefs)
  have rad: "b_radius (bird ?s) = 12"
    by (simp add: aloft_def)
  from floor_collision [OF g h, of r07] show ?thesis
    using survive_run [OF fall54] g y by (simp add: rad)
qed

subsection \<open>Score\<close>

text \<open>
  C3, as the code has it. In a frame that starts while the game is being played, the
  pipes that exist after the spawn, the move and the removal of that frame are visited in
  order. A pipe is counted when its flag \<^verbatim>\<open>passed\<close> is not yet set and the bird's
  \<open>x\<close>, the centre of the bird and not its leading edge \<open>x + radius\<close>, is greater than
  the pipe's trailing edge \<open>x + PIPE_WIDTH\<close>. A pipe that is counted has its flag set
  and adds exactly 1 to the score; every other pipe is left as it is and adds nothing.
  So at the end of the frame every pipe whose trailing edge is left of the bird's \<open>x\<close>
  has its flag set. Neither the move to the left nor a flap clears the flag, and a new
  pipe starts without it: no pipe is counted twice.
\<close>

theorem score_on_passing:
  assumes "gameState s = Game"
  shows "pipes (update r s) = map (mark (bird s)) (pipes (pipes_logic r s))
     \<and> score (update r s)
         = score s + int (length (filter (passing (bird s)) (pipes (pipes_logic r s))))
     \<and> pipes (pipes_logic r s)
         = retire (map move_pipe
             (pipes s @ (if pipeSpawnTimer s + 1 > PIPE_DISTANCE then [new_pipe r] else [])))
     \<and> (\<forall>b p. passing b p \<longleftrightarrow> \<not> p_passed p \<and> b_x b > p_x p + PIPE_WIDTH)
     \<and> (\<forall>b p. mark b p = (if passing b p then p\<lparr>p_passed := True\<rparr> else p))
     \<and> (\<forall>p. p_passed (move_pipe p) = p_passed p) \<and> \<not> p_passed (new_pipe r)
     \<and> (\<forall>p\<in>set (pipes (update r s)). b_x (bird s) > p_x p + PIPE_WIDTH \<longrightarrow> p_passed p)
     \<and> pipes (flap s) = pipes s \<and> score (flap s) = score s"
proof -
  have 1: "pipes (update r s) = map (mark (bird s)) (pipes (pipes_logic r s))"
    by (simp only: update_Game_fields [OF assms] mark_physics)
  have 2: "score (update r s)
         = score s + int (length (filter (passing (bird s)) (pipes (pipes_logic r s))))"
    by (simp only: update_Game_fields [OF assms] passing_physics)
  have 3: "pipes (pipes_logic r s)
         = retire (map move_pipe
             (pipes s @ (if pipeSpawnTimer s + 1 > PIPE_DISTANCE then [new_pipe r] else [])))"
    by (rule pipes_logic_fields)
  have 4: "\<forall>b p. passing b p \<longleftrightarrow> \<not> p_passed p \<and> b_x b > p_x p + PIPE_WIDTH"
    by (simp add: passing_def)
  have 5: "\<forall>b p. mark b p = (if passing b p then p\<lparr>p_passed := True\<rparr> else p)"
    by (simp add: mark_def)
  have 6: "\<forall>p. p_passed (move_pipe p) = p_passed p"
    by (simp add: move_pipe_def)
  have 7: "\<not> p_passed (new_pipe r)"
    by (simp add: new_pipe_def Let_def)
  have 8: "\<forall>p\<in>set (pipes (update r s)). b_x (bird s) > p_x p + PIPE_WIDTH \<longrightarrow> p_passed p"
    unfolding 1 by (auto simp: mark_fields)
  have 9: "pipes (flap s) = pipes s \<and> score (flap s) = score s"
    using assms by (simp add: flap_def)
  from 1 2 3 4 5 6 7 8 9 show ?thesis
    by blast
qed

text \<open>Frame 281 of the flight: the pipe moves from 8 to 6, its trailing edge 58 is left
  of the bird's centre 60, and the score goes from 0 to 1.\<close>

theorem score_on_passing_witness:
  "gameState (cruise 0 [gap 8 False] (- 272) 280 139) = Game
   \<and> pipes (cruise 0 [gap 8 False] (- 272) 280 139) = [gap 8 False]
   \<and> score (cruise 0 [gap 8 False] (- 272) 280 139) = 0
   \<and> pipes (update r07 (cruise 0 [gap 8 False] (- 272) 280 139)) = [gap 6 True]
   \<and> score (update r07 (cruise 0 [gap 8 False] (- 272) 280 139)) = 1"
proof -
  let ?s = "cruise 0 [gap 8 False] (- 272) 280 139"
  have g: "gameState ?s = Game" and p0: "pipes ?s = [gap 8 False]" and s0: "score ?s = 0"
    by (simp_all add: cruise_def)
  have pl: "pipes (pipes_logic r07 ?s) = [gap 6 False]"
    by (simp add: pipes_logic_fields cruise_def retire_def move_pipe_def gap_def cdefs)
  have ps: "passing (bird ?s) (gap 6 False)"
    by (simp add: passing_def cruise_def gap_def PIPE_WIDTH_def)
  have mk: "mark (bird ?s) (gap 6 False) = gap 6 True"
    using ps by (simp add: mark_def gap_def)
  note sp = score_on_passing [OF g, of r07]
  have "pipes (update r07 ?s) = [gap 6 True]"
    using sp [THEN conjunct1] by (simp only: pl mk list.map)
  moreover have "score (update r07 ?s) = 1"
    using sp [THEN conjunct2, THEN conjunct1] ps by (simp only: pl s0 filter.simps) simp
  ultimately show ?thesis
    using g p0 s0 by blast
qed

text \<open>Frame 275 of the flight, reached from the start of the game by 8 flaps and 274
  frames. Before it the pipe is at 20 and the bird's leading edge \<open>60 + 12\<close> is not yet
  past the pipe's trailing edge \<open>20 + 52\<close>. After it the pipe is at 18 and the leading
  edge 72 is past the trailing edge 70: the flag stays unset and the score stays 0.\<close>

theorem leading_edge_not_counted:
  "survive (flight 7 @ replicate 29 (Tick r07)) (flap initial)
     = Some (aloft (937 / 4) (11 / 4) 0 [gap 20 False] (- 260) 274 133)
   \<and> \<not> b_x (bird (aloft (937 / 4) (11 / 4) 0 [gap 20 False] (- 260) 274 133))
         + b_radius (bird (aloft (937 / 4) (11 / 4) 0 [gap 20 False] (- 260) 274 133))
       > p_x (gap 20 False) + PIPE_WIDTH
   \<and> update r07 (aloft (937 / 4) (11 / 4) 0 [gap 20 False] (- 260) 274 133)
     = aloft (949 / 4) 3 0 [gap 18 False] (- 262) 275 134
   \<and> gameState (aloft (949 / 4) 3 0 [gap 18 False] (- 262) 275 134) = Game
   \<and> b_x (bird (aloft (949 / 4) 3 0 [gap 18 False] (- 262) 275 134))
         + b_radius (bird (aloft (949 / 4) 3 0 [gap 18 False] (- 262) 275 134))
       > p_x (gap 18 False) + PIPE_WIDTH
   \<and> pipes (aloft (949 / 4) 3 0 [gap 18 False] (- 262) 275 134) = [gap 18 False]
   \<and> \<not> p_passed (gap 18 False)
   \<and> score (aloft (949 / 4) 3 0 [gap 18 False] (- 262) 275 134) = 0"
proof -
  have "gameState (cruise 0 [gap 78 False] (- 202) 245 104) = Game"
    by (simp add: cruise_def)
  then have "survive (flight 7 @ replicate 29 (Tick r07)) (flap initial)
     = Some (aloft (937 / 4) (11 / 4) 0 [gap 20 False] (- 260) 274 133)"
    by (simp add: survive_append flight7 tail29)
  then show ?thesis
    by (simp add: frame275) (simp add: aloft_def gap_def PIPE_WIDTH_def)
qed

subsection \<open>Flapping\<close>

text \<open>
  C4. A key press or click on the start screen or while the game is being played sets
  the vertical velocity to \<open>JUMP = -4.5\<close>, whatever it was, and leaves the game being
  played. While the game is being played it changes nothing else: two of them in a row
  both set the velocity to \<open>JUMP\<close>, and the score and the pipes stay as they were.
\<close>

theorem flap_jump:
  "(gameState s = Splash \<or> gameState s = Game \<longrightarrow>
      b_vy (bird (flap s)) = JUMP \<and> gameState (flap s) = Game)
   \<and> (gameState s = Game \<longrightarrow>
        flap s = s\<lparr>bird := (bird s)\<lparr>b_vy := JUMP\<rparr>\<rparr>
      \<and> b_vy (bird (flap (flap s))) = JUMP
      \<and> score (flap s) = score s \<and> pipes (flap s) = pipes s
      \<and> score (flap (flap s)) = score s \<and> pipes (flap (flap s)) = pipes s)
   \<and> JUMP = - (9 / 2) \<and> JUMP < 0"
  by (auto simp: flap_def resetGame_def JUMP_def)

theorem flap_jump_witness:
  "gameState initial = Splash
   \<and> b_vy (bird initial) = 0
   \<and> b_vy (bird (flap initial)) = - (9 / 2)
   \<and> gameState (aloft (991 / 4) (- 4) 1 [gap 4 True, gap 286 False] (- 276) 282 0) = Game
   \<and> b_vy (bird (flap (aloft (991 / 4) (- 4) 1 [gap 4 True, gap 286 False] (- 276) 282 0)))
       = - (9 / 2)
   \<and> b_vy (bird (flap (flap
         (aloft (991 / 4) (- 4) 1 [gap 4 True, gap 286 False] (- 276) 282 0))))
       = - (9 / 2)
   \<and> score (flap (flap (aloft (991 / 4) (- 4) 1 [gap 4 True, gap 286 False] (- 276) 282 0)))
       = 1
   \<and> pipes (flap (flap (aloft (991 / 4) (- 4) 1 [gap 4 True, gap 286 False] (- 276) 282 0)))
       = [gap 4 True, gap 286 False]"
proof -
  let ?s = "aloft (991 / 4) (- 4) 1 [gap 4 True, gap 286 False] (- 276) 282 0"
  have i: "gameState initial = Splash" "b_vy (bird initial) = 0"
    by (simp_all add: initial_def)
  have g: "gameState ?s = Game" "score ?s = 1" "pipes ?s = [gap 4 True, gap 286 False]"
    by (simp_all add: aloft_def)
  have j: "JUMP = - (9 / 2)"
    by (simp add: JUMP_def)
  from flap_jump [of initial] i have "b_vy (bird (flap initial)) = JUMP"
    by blast
  moreover from flap_jump [of ?s] g have "b_vy (bird (flap ?s)) = JUMP"
    and "b_vy (bird (flap (flap ?s))) = JUMP"
    and "score (flap (flap ?s)) = score ?s"
    and "pipes (flap (flap ?s)) = pipes ?s"
    by blast+
  ultimately show ?thesis
    unfolding j g using i g by blast
qed

text \<open>
  C5, where the code departs from it. The frame right after the first flap: the updated
  vertical velocity is \<open>-4.25\<close>, which is negative, and the animation frame is 1, the one
  that the source labels \<^verbatim>\<open>Downflap\<close>, not 0, the one it labels \<^verbatim>\<open>Upflap\<close>. The
  test \<^verbatim>\<open>bird.vy >= JUMP\<close> comes first in \<^verbatim>\<open>update\<close> and holds for every velocity from
  \<open>-4.5\<close> up.
\<close>

theorem downflap_while_rising:
  "gameState (flap initial) = Game
   \<and> b_vy (bird (update r (flap initial))) = - (17 / 4)
   \<and> b_vy (bird (update r (flap initial))) < 0
   \<and> b_frame (bird (update r (flap initial))) = 1"
proof -
  have g: "gameState (flap initial) = Game"
    and v: "b_vy (bird (flap initial)) = - (9 / 2)"
    and y: "b_y (bird (flap initial)) = 256"
    and rad: "b_radius (bird (flap initial)) = 12"
    by (simp_all add: flap_initial)
  show ?thesis
    by (simp add: update_Game_fields [OF g] physics_fields v y rad g cdefs)
qed

text \<open>The same holds in every frame of a game: the velocity never goes below \<open>JUMP\<close>,
  so the first test always succeeds and the animation frame is 1 after every frame in
  which the game is being played.\<close>

lemma reachable_vy: "reachable s \<Longrightarrow> JUMP \<le> b_vy (bird s)"
proof (induction rule: reachable.induct)
  case reachable_initial
  show ?case by (simp add: initial_def JUMP_def)
next
  case (reachable_update s r)
  show ?case
  proof (cases "gameState s = Game")
    case True
    then show ?thesis
      using reachable_update.IH
      by (simp add: update_Game_fields physics_fields GRAVITY_def)
  next
    case False
    then show ?thesis
      using reachable_update.IH by (simp add: update_not_Game)
  qed
next
  case (reachable_flap s)
  then show ?case
    by (cases "gameState s") (simp_all add: flap_cases resetGame_def JUMP_def)
qed

lemma frame_after_update:
  assumes "reachable s" and "gameState s = Game"
  shows "b_frame (bird (update r s)) = 1"
  using reachable_vy [OF assms(1)] assms(2)
  by (simp add: update_Game_fields physics_fields GRAVITY_def)

subsection \<open>Spawning\<close>

text \<open>
  C6, as the code has it. The spawn timer is incremented and then compared with
  \<open>PIPE_DISTANCE = 140\<close> by \<^verbatim>\<open>>\<close>, so the first pipe comes in the frame that makes the
  timer 141. After any events that hold at most 140 frames, from the start of the game,
  there is no pipe. In a run that starts with the first flap and in which the game is
  being played before and after every event: with at most 140 frames there is no pipe;
  with 141 frames there is one pipe, at \<open>WIDTH - 2 = 286\<close>, spawned at the right edge and
  moved once in that frame; with \<open>n\<close> frames, for \<open>n\<close> from 141 to 281, that pipe is at
  \<open>WIDTH - 2 * (n - 140)\<close>; with 282 frames there are two pipes, the first at
  \<open>WIDTH - 2 * 142 = 4\<close> and the second at 286.
\<close>

theorem spawn_cadence:
  "(ticks_in es0 \<le> 140 \<longrightarrow> pipes (run es0 initial) = [])
   \<and> (survive es (flap initial) = Some t \<longrightarrow>
        (ticks_in es \<le> 140 \<longrightarrow>
           pipes t = [] \<and> pipeSpawnTimer t = int (ticks_in es))
      \<and> (ticks_in es = 141 \<longrightarrow>
           map p_x (pipes t) = [WIDTH - 2] \<and> pipeSpawnTimer t = 0)
      \<and> (141 \<le> ticks_in es \<and> ticks_in es \<le> 281 \<longrightarrow>
           map p_x (pipes t) = [WIDTH - 2 * (int (ticks_in es) - 140)]
           \<and> pipeSpawnTimer t = int (ticks_in es) - 141)
      \<and> (ticks_in es = 282 \<longrightarrow>
           map p_x (pipes t) = [WIDTH - 2 * 142, WIDTH - 2] \<and> pipeSpawnTimer t = 0))
   \<and> PIPE_DISTANCE = 140 \<and> WIDTH = 288"
proof -
  have a: "pipes (run es0 initial) = []" if "ticks_in es0 \<le> 140"
  proof (rule no_pipe_before)
    show "pipes initial = []" and "0 \<le> pipeSpawnTimer initial"
      by (simp_all add: initial_def)
    show "pipeSpawnTimer initial + int (ticks_in es0) \<le> PIPE_DISTANCE"
      using that by (simp add: initial_def PIPE_DISTANCE_def)
  qed
  have b: "(ticks_in es \<le> 140 \<longrightarrow>
           pipes t = [] \<and> pipeSpawnTimer t = int (ticks_in es))
      \<and> (ticks_in es = 141 \<longrightarrow>
           map p_x (pipes t) = [WIDTH - 2] \<and> pipeSpawnTimer t = 0)
      \<and> (141 \<le> ticks_in es \<and> ticks_in es \<le> 281 \<longrightarrow>
           map p_x (pipes t) = [WIDTH - 2 * (int (ticks_in es) - 140)]
           \<and> pipeSpawnTimer t = int (ticks_in es) - 141)
      \<and> (ticks_in es = 282 \<longrightarrow>
           map p_x (pipes t) = [WIDTH - 2 * 142, WIDTH - 2] \<and> pipeSpawnTimer t = 0)"
    if "survive es (flap initial) = Some t"
    using cadence [OF that] by auto
  show ?thesis
    using a b by (simp add: PIPE_DISTANCE_def WIDTH_def)
qed

text \<open>The flight, with 141 and with 282 frames, and the run of the claim: one flap and
  140 frames.\<close>

theorem spawn_cadence_witness:
  "ticks_in (Activate # replicate 140 (Tick r07)) = 140
   \<and> pipes (run (Activate # replicate 140 (Tick r07)) initial) = []
   \<and> survive (flight 4 @ [Tick r07]) (flap initial)
       = Some (aloft (1007 / 4) (- (17 / 4)) 0 [gap 286 False] (- 282) 141 0)
   \<and> ticks_in (flight 4 @ [Tick r07]) = 141
   \<and> map p_x (pipes (aloft (1007 / 4) (- (17 / 4)) 0 [gap 286 False] (- 282) 141 0)) = [286]
   \<and> survive (flight 8 @ [Tick r07, Tick r07]) (flap initial)
       = Some (aloft (991 / 4) (- 4) 1 [gap 4 True, gap 286 False] (- 276) 282 0)
   \<and> ticks_in (flight 8 @ [Tick r07, Tick r07]) = 282
   \<and> map p_x (pipes (aloft (991 / 4) (- 4) 1 [gap 4 True, gap 286 False] (- 276) 282 0))
       = [4, 286]"
proof -
  let ?es0 = "Activate # replicate 140 (Tick r07)"
  let ?es1 = "flight 4 @ [Tick r07]"
  let ?t1 = "aloft (1007 / 4) (- (17 / 4)) 0 [gap 286 False] (- 282) 141 0"
  let ?es2 = "flight 8 @ [Tick r07, Tick r07]"
  let ?t2 = "aloft (991 / 4) (- 4) 1 [gap 4 True, gap 286 False] (- 276) 282 0"
  have n0: "ticks_in ?es0 = 140"
    by (simp add: ticks_in_simps ticks_in_replicate)
  have n1: "ticks_in ?es1 = 141"
    by (simp add: ticks_in_simps ticks_in_flight)
  have n2: "ticks_in ?es2 = 282"
    by (simp add: ticks_in_simps ticks_in_flight)
  have "survive (flight 4) (flap initial) = Some (cruise 0 [] (- 280) 140 140)"
    by (simp add: eval_nat_numeral survive_append leg1 leg2 leg3 leg4)
  moreover have "gameState (cruise 0 [] (- 280) 140 140) = Game"
    and "gameState ?t1 = Game"
    by (simp_all add: cruise_def aloft_def)
  ultimately have s1: "survive ?es1 (flap initial) = Some ?t1"
    by (simp add: survive_append frame141)
  note s2 = flight282
  have "pipes (run ?es0 initial) = []"
    using spawn_cadence [of ?es0] n0 by simp
  moreover have "map p_x (pipes ?t1) = [286]"
    using spawn_cadence [of _ ?es1 ?t1] s1 n1 by (simp add: WIDTH_def)
  moreover have "map p_x (pipes ?t2) = [4, 286]"
    using spawn_cadence [of _ ?es2 ?t2] s2 n2 by (simp add: WIDTH_def)
  ultimately show ?thesis
    using n0 n1 n2 s1 s2 by blast
qed

text \<open>One flap and 140 frames: the bird reaches the ground in frame 55, the game is
  over, and no pipe exists, where the claim has one pipe at 8 and a second at the right
  edge.\<close>

theorem no_pipe_after_140_frames:
  "run (Activate # replicate 140 (Tick r07)) initial = wreck (- 280) 140
   \<and> gameState (wreck (- 280) 140) = Over
   \<and> pipes (wreck (- 280) 140) = []"
proof -
  have "replicate 140 (Tick r07)
      = replicate 54 (Tick r07) @ replicate 86 (Tick r07)"
    by (simp flip: replicate_add)
  then show ?thesis
    using run140 by (simp add: wreck_def)
qed

text \<open>
  C7. A pipe made by \<^verbatim>\<open>spawnPipe\<close> is appended after the pipes that exist, starts at the
  right edge \<open>x = WIDTH = 288\<close>, has \<open>bottom = top + PIPE_GAP\<close> with \<open>PIPE_GAP = 100\<close>, and
  its \<open>top\<close> is an integer with \<open>40 \<le> top < 260\<close>, whatever double in \<open>[0, 1)\<close> the random
  source returns. The product of the random number and 220 is rounded to a double before
  \<^verbatim>\<open>Math.floor\<close>: the random number is at most \<open>1 - 2^-53\<close>, the exact product at most
  \<open>220 - 220 * 2^-53\<close>, and rounding adds at most \<open>2^-46 = 128 * 2^-53\<close>, which leaves the
  result below 220.
\<close>

theorem spawnPipe_bounds:
  assumes "double r" and "0 \<le> r" and "r < 1"
  shows "pipes (spawnPipe r s) = pipes s @ [new_pipe r]
           \<and> p_x (new_pipe r) = WIDTH \<and> WIDTH = 288
           \<and> p_bottom (new_pipe r) = p_top (new_pipe r) + PIPE_GAP \<and> PIPE_GAP = 100
           \<and> 40 \<le> p_top (new_pipe r)
           \<and> p_top (new_pipe r) < HEIGHT - GROUND_HEIGHT - PIPE_GAP - 80 + 40
           \<and> HEIGHT - GROUND_HEIGHT - PIPE_GAP - 80 + 40 = 260"
proof -
  define x where "x = r * 220"
  have r: "r \<le> 1 - 1 / 2 ^ 53"
    using assms by (rule double_below_1)
  have x0: "0 \<le> x"
    using assms(2) by (simp add: x_def)
  have "x \<le> (1 - 1 / 2 ^ 53) * 220"
    unfolding x_def using r by (intro mult_right_mono) simp_all
  then have x1: "x \<le> 220 - 220 / 2 ^ 53"
    by (simp add: algebra_simps)
  then have "x < 256"
    by simp
  from fl_error_256 [OF x0 this] have "fl x \<le> x + 1 / 2 ^ 46"
    by linarith
  with x1 have "fl x \<le> 220 - 220 / 2 ^ 53 + 1 / 2 ^ 46"
    by linarith
  also have "\<dots> < 220"
    by simp
  finally have hi: "\<lfloor>fl x\<rfloor> < 220"
    by (simp add: floor_less_iff)
  have lo: "0 \<le> \<lfloor>fl x\<rfloor>"
    using fl_nonneg [OF x0] by simp
  have t: "p_top (new_pipe r) = \<lfloor>fl x\<rfloor> + 40"
    by (simp add: new_pipe_def x_def HEIGHT_def GROUND_HEIGHT_def PIPE_GAP_def)
  have "p_x (new_pipe r) = WIDTH"
    and "p_bottom (new_pipe r) = p_top (new_pipe r) + PIPE_GAP"
    by (simp_all add: new_pipe_def Let_def)
  moreover have "pipes (spawnPipe r s) = pipes s @ [new_pipe r]"
    by (simp add: spawnPipe_def)
  ultimately show ?thesis
    using lo hi unfolding t by (simp add: WIDTH_def HEIGHT_def GROUND_HEIGHT_def PIPE_GAP_def)
qed

theorem spawnPipe_bounds_witness:
  "double r07 \<and> 0 \<le> r07 \<and> r07 < 1
     \<and> pipes (spawnPipe r07 initial) = [new_pipe r07]
     \<and> p_x (new_pipe r07) = 288
     \<and> p_top (new_pipe r07) = 194
     \<and> p_bottom (new_pipe r07) = 294"
proof -
  have "pipes (spawnPipe r07 initial) = pipes initial @ [new_pipe r07]"
    using spawnPipe_bounds [OF double_r07 r07_range(1,2), of initial] by blast
  then have "pipes (spawnPipe r07 initial) = [new_pipe r07]"
    by (simp add: initial_def)
  moreover have "p_x (new_pipe r07) = 288" "p_top (new_pipe r07) = 194"
    "p_bottom (new_pipe r07) = 294"
    by (simp_all add: new_pipe_r07 gap_def)
  ultimately show ?thesis
    using double_r07 r07_range by blast
qed

text \<open>The rounding is part of the result and the bound needs a double. For \<open>r07\<close> the
  exact product has floor 153 and the rounded product is 154, so the top is 194. The
  number \<open>1 - 2^-60\<close> is below 1 and is not a double; its product with 220 rounds to 220
  and would give the top 260.\<close>

lemma rounding_matters:
  "\<lfloor>r07 * 220\<rfloor> + 40 = 193" and "p_top (new_pipe r07) = 194"
  by (simp_all add: floor_exact_r07 new_pipe_r07 gap_def)

lemma bound_needs_double: "p_top (new_pipe (1 - 1 / 2 ^ 60)) = 260"
proof -
  define x :: rat where "x = (1 - 1 / 2 ^ 60) * 220"
  have x: "x = 220 - 55 / 2 ^ 58"
    by (simp add: x_def)
  have pos: "0 < x" and ax: "\<bar>x\<bar> = x" and nz: "x \<noteq> 0"
    by (simp_all add: x)
  have "(2::rat) powi 7 \<le> x" and "x < 2 powi (7 + 1)"
    by (simp_all add: x)
  then have e: "expo x = 7"
    by (rule expo_unique [OF pos])
  have u: "(2::rat) powi (max 7 (- 1022) - 52) = 1 / 2 ^ 45"
    using powi_minus_eval(2) by simp
  have q: "x / (1 / 2 ^ 45) = 7740561859543040 - 55 / 8192"
    by (simp add: x)
  have "\<lfloor>7740561859543040 - 55 / 8192 :: rat\<rfloor> = 7740561859543039"
    by (simp add: floor_eq_iff)
  then have n: "round_even (7740561859543040 - 55 / 8192) = 7740561859543040"
    by (simp add: round_even_def)
  have "fl x = 220"
    using nz unfolding fl_def Let_def ax e u q n by simp
  then show ?thesis
    by (simp add: new_pipe_def x_def cdefs)
qed

subsection \<open>The line of pipes\<close>

text \<open>
  C8. In every state that the game can reach, the pipes are in ascending order of \<open>x\<close>.
  A frame that starts while the game is being played appends the new pipe if one is due,
  moves every pipe 2 to the left, and then removes the first pipe, and only that one,
  exactly when its trailing edge \<open>x + PIPE_WIDTH\<close> is left of 0; the visit that follows
  changes no pipe other than by setting its flag \<^verbatim>\<open>passed\<close>. A key press or click
  while the game is being played removes no pipe; on the start screen and after the game
  is over it is \<^verbatim>\<open>resetGame\<close> that empties the list.
\<close>

theorem sorted_fifo:
  "(reachable s \<longrightarrow> sorted (map p_x (pipes s)))
   \<and> (gameState t = Game \<longrightarrow>
        pipes (update r t)
          = map (mark (bird t)) (retire (map move_pipe
              (pipes t @ (if pipeSpawnTimer t + 1 > PIPE_DISTANCE then [new_pipe r] else [])))))
   \<and> move_pipe p = p\<lparr>p_x := p_x p - 2\<rparr>
   \<and> (mark b p = p \<or> mark b p = p\<lparr>p_passed := True\<rparr>)
   \<and> retire [] = []
   \<and> retire (p # ps) = (if p_x p + PIPE_WIDTH < 0 then ps else p # ps)
   \<and> pipes (flap t) = (if gameState t = Game then pipes t else [])"
proof -
  have "sorted (map p_x (pipes s))" if "reachable s"
    using reachable_lined_up [OF that] by (simp add: lined_up_def)
  moreover have "pipes (update r t)
          = map (mark (bird t)) (retire (map move_pipe
              (pipes t @ (if pipeSpawnTimer t + 1 > PIPE_DISTANCE then [new_pipe r] else []))))"
    if "gameState t = Game"
    by (simp only: update_Game_fields [OF that] mark_physics pipes_logic_fields)
  moreover have "retire (p # ps) = (if p_x p + PIPE_WIDTH < 0 then ps else p # ps)"
    by (simp add: retire_def)
  moreover have "pipes (flap t) = (if gameState t = Game then pipes t else [])"
    by (cases "gameState t") (simp_all add: flap_cases resetGame_def)
  ultimately show ?thesis
    by (simp add: move_pipe_def mark_def retire_def)
qed

text \<open>The state after 282 frames of the flight, with the pipes at 4 and 286, and frame
  311, in which the first pipe moves from \<open>-52\<close> to \<open>-54\<close> and is removed.\<close>

theorem sorted_fifo_witness:
  "reachable (aloft (991 / 4) (- 4) 1 [gap 4 True, gap 286 False] (- 276) 282 0)
   \<and> map p_x (pipes (aloft (991 / 4) (- 4) 1 [gap 4 True, gap 286 False] (- 276) 282 0))
       = [4, 286]
   \<and> sorted [4, 286 :: int]
   \<and> gameState (aloft (949 / 4) 3 1 [gap (- 52) True, gap 230 False] (- 44) 310 28) = Game
   \<and> pipes (update r07
         (aloft (949 / 4) 3 1 [gap (- 52) True, gap 230 False] (- 44) 310 28))
       = [gap 228 False]"
proof -
  let ?s = "aloft (991 / 4) (- 4) 1 [gap 4 True, gap 286 False] (- 276) 282 0"
  let ?t = "aloft (949 / 4) 3 1 [gap (- 52) True, gap 230 False] (- 44) 310 28"
  have x: "map p_x (pipes ?s) = [4, 286]"
    by (simp add: aloft_def gap_def)
  have g: "gameState ?t = Game"
    by (simp add: aloft_def)
  note sf = sorted_fifo [of ?s ?t r07]
  have "sorted (map p_x (pipes ?s))"
    using sf reachable282 by blast
  then have "sorted [4, 286 :: int]"
    by (simp only: x)
  moreover have "pipes (update r07 ?t)
      = map (mark (bird ?t)) (retire (map move_pipe
          (pipes ?t @ (if pipeSpawnTimer ?t + 1 > PIPE_DISTANCE then [new_pipe r07] else []))))"
    using sf g by blast
  then have "pipes (update r07 ?t) = [gap 228 False]"
    by (simp add: aloft_def gap_def retire_def move_pipe_def mark_def passing_def cdefs)
  ultimately show ?thesis
    using reachable282 x g by blast
qed

text \<open>
  C9. A frame that starts on the start screen or after the game is over leaves the bird,
  the pipes, the score, the spawn timer and the state of the game as they are. It adds 1
  to the frame counter and moves the ground: the offset becomes \<^verbatim>\<open>(baseX - 2) % WIDTH\<close>,
  which for an offset between \<open>-WIDTH\<close> and 0 is the offset minus 2, and \<open>WIDTH\<close> more
  than that once \<open>-WIDTH\<close> is reached.
\<close>

theorem tick_outside_Game:
  assumes "gameState s = Splash \<or> gameState s = Over"
  shows "bird (update r s) = bird s
     \<and> pipes (update r s) = pipes s
     \<and> score (update r s) = score s
     \<and> pipeSpawnTimer (update r s) = pipeSpawnTimer s
     \<and> gameState (update r s) = gameState s
     \<and> frame (update r s) = frame s + 1
     \<and> baseX (update r s) = js_rem (baseX s - 2) WIDTH
     \<and> (- WIDTH < baseX s \<and> baseX s \<le> 0 \<longrightarrow>
          baseX (update r s)
            = (if - WIDTH < baseX s - 2 then baseX s - 2 else baseX s - 2 + WIDTH))"
proof -
  have "gameState s \<noteq> Game"
    using assms by auto
  then have "update r s = s\<lparr>frame := frame s + 1, baseX := js_rem (baseX s - 2) WIDTH\<rparr>"
    by (rule update_not_Game)
  then show ?thesis
    using js_rem_wrap [of "baseX s"] by simp
qed

text \<open>The first frame on the start screen, and frame 144 of a game that has been over
  since frame 55, in which the ground offset goes from \<open>-286\<close> back to 0.\<close>

theorem tick_outside_Game_witness:
  "gameState initial = Splash
   \<and> update r07 initial = initial\<lparr>frame := 1, baseX := - 2\<rparr>
   \<and> run (Activate # replicate 54 (Tick r07) @ replicate 86 (Tick r07)
          @ replicate 3 (Tick r07)) initial
       = wreck (- 286) 143
   \<and> gameState (wreck (- 286) 143) = Over
   \<and> update r07 (wreck (- 286) 143) = wreck 0 144"
proof -
  have i: "gameState initial = Splash"
    by (simp add: initial_def)
  have o: "gameState (wreck (- 286) 143) = Over"
    by (simp add: wreck_def)
  have "update r07 initial = initial\<lparr>frame := 1, baseX := - 2\<rparr>"
    using tick_outside_Game [of initial r07] i
    by (intro globals.equality) (simp_all add: initial_def WIDTH_def js_rem_eval)
  moreover have "update r07 (wreck (- 286) 143) = wreck 0 144"
    using tick_outside_Game [of "wreck (- 286) 143" r07] o
    by (intro globals.equality) (simp_all add: wreck_def WIDTH_def js_rem_eval)
  ultimately show ?thesis
    using i o run143 by blast
qed

text \<open>
  C10. In every state that the game can reach, no pipe is at the spawn position
  \<open>WIDTH\<close>: a pipe that spawns in a frame is moved in that same frame, so every pipe is
  at \<open>WIDTH - 2 * k\<close> for an integer \<open>k\<close> that is at least 1.
\<close>

theorem never_at_spawn_position:
  assumes "reachable s"
  shows "\<forall>p\<in>set (pipes s). p_x p \<noteq> WIDTH \<and> (\<exists>k\<ge>1. p_x p = WIDTH - 2 * k)"
  using reachable_lined_up [OF assms] by (fastforce simp: lined_up_def)

theorem never_at_spawn_position_witness:
  "reachable (aloft (991 / 4) (- 4) 1 [gap 4 True, gap 286 False] (- 276) 282 0)
   \<and> pipes (aloft (991 / 4) (- 4) 1 [gap 4 True, gap 286 False] (- 276) 282 0)
       = [gap 4 True, gap 286 False]
   \<and> p_x (gap 4 True) \<noteq> WIDTH \<and> p_x (gap 4 True) = WIDTH - 2 * 142
   \<and> p_x (gap 286 False) \<noteq> WIDTH \<and> p_x (gap 286 False) = WIDTH - 2 * 1"
proof -
  let ?s = "aloft (991 / 4) (- 4) 1 [gap 4 True, gap 286 False] (- 276) 282 0"
  have p: "pipes ?s = [gap 4 True, gap 286 False]"
    by (simp add: aloft_def)
  from never_at_spawn_position [OF reachable282]
  have "p_x (gap 4 True) \<noteq> WIDTH" "p_x (gap 286 False) \<noteq> WIDTH"
    by (simp_all only: p list.set ball_simps) simp_all
  then show ?thesis
    using reachable282 p by (simp add: gap_def WIDTH_def)
qed


end
